theory Spec2Isabelle
  imports Main "HOL-Library.AList"
begin

section \<open>JavaScript values\<close>

text \<open>
  The values that flow through the evaluator. Numbers are restricted to integers. A
  plain object \<open>VObj kv\<close> is the association list of its own properties in insertion
  order, read with \<open>map_of\<close> and written with \<open>AList.update\<close> (an existing key keeps its
  place, a new key goes last); its prototype is \<open>Object.prototype\<close>. \<open>VProto p kv\<close> is an
  object whose prototype has been replaced by \<open>p\<close>, which is null or an object. Values
  are compared by structure; a function is not a value of the model.
\<close>

datatype val =
    VUndefined
  | VNull
  | VBool bool
  | VNum int
  | VStr string
  | VObj "(string \<times> val) list"
  | VArr "val list"
  | VProto val "(string \<times> val) list"

definition CR :: char where "CR = CHR 0x0D"
definition LF :: char where "LF = CHR 0x0A"

text \<open>\<open>typeof v === 'string'\<close> and \<open>typeof v === 'object'\<close> (null is an object).\<close>

fun isString :: "val \<Rightarrow> bool" where
  "isString (VStr s) = True"
| "isString v = False"

fun typeofObject :: "val \<Rightarrow> bool" where
  "typeofObject VNull = True"
| "typeofObject (VObj kv) = True"
| "typeofObject (VArr vs) = True"
| "typeofObject (VProto p kv) = True"
| "typeofObject v = False"

text \<open>JavaScript truthiness: \<open>!v\<close> is \<open>\<not> truthy v\<close>.\<close>

fun truthy :: "val \<Rightarrow> bool" where
  "truthy VUndefined = False"
| "truthy VNull = False"
| "truthy (VBool b) = b"
| "truthy (VNum n) = (n \<noteq> 0)"
| "truthy (VStr s) = (s \<noteq> [])"
| "truthy (VObj kv) = True"
| "truthy (VArr vs) = True"
| "truthy (VProto p kv) = True"

text \<open>
  What the JavaScript engine supplies beyond the model: the spelling of a number whose
  magnitude is at least \<open>10^21\<close> (exponent form), the names of the properties of
  \<open>Array.prototype\<close>, and \<open>Array.prototype.toString\<close> applied to an object that inherits
  from an array without being one.
\<close>

record Engine =
  exponentForm :: "int \<Rightarrow> string"
  arrayPrototypeKeys :: "string list"
  arrayToString :: "val \<Rightarrow> string option"

fun digitChar :: "nat \<Rightarrow> char" where
  "digitChar n = char_of (48 + n)"

fun showNat :: "nat \<Rightarrow> string" where
  "showNat n = (if n < 10 then [digitChar n] else showNat (n div 10) @ [digitChar (n mod 10)])"

declare showNat.simps [simp del]

definition showInt :: "int \<Rightarrow> string" where
  "showInt i = (if i < 0 then CHR ''-'' # showNat (nat (- i)) else showNat (nat i))"

text \<open>
  \<open>Number.prototype.toString\<close> on an integer: all the digits below \<open>10^21\<close>, the engine's
  exponent form from there on.
\<close>

definition numberToString :: "Engine \<Rightarrow> int \<Rightarrow> string" where
  "numberToString engine n =
     (if \<bar>n\<bar> < 10 ^ 21 then showInt n else exponentForm engine n)"

fun joinWith :: "string \<Rightarrow> string list \<Rightarrow> string" where
  "joinWith sep [] = []"
| "joinWith sep [x] = x"
| "joinWith sep (x # y # ys) = x @ sep @ joinWith sep (y # ys)"

text \<open>
  The names every plain object inherits from \<open>Object.prototype\<close>: the operator
  \<open>key in obj\<close> answers true for them as well as for the object's own keys.
\<close>

definition objectPrototypeKeys :: "string list" where
  "objectPrototypeKeys =
     [''constructor'', ''hasOwnProperty'', ''isPrototypeOf'', ''propertyIsEnumerable'',
      ''toLocaleString'', ''toString'', ''valueOf'', ''__proto__'',
      ''__defineGetter__'', ''__defineSetter__'', ''__lookupGetter__'', ''__lookupSetter__'']"

text \<open>
  The own keys of an array are its indices and \<open>length\<close>.
\<close>

definition arrayOwnKeys :: "val list \<Rightarrow> string list" where
  "arrayOwnKeys vs = map showNat [0..<length vs] @ [''length'']"

text \<open>
  \<open>key in obj\<close>, for an object: the own keys, then the prototype chain. (On null the
  operator is a TypeError, which the callers raise themselves.)
\<close>

fun hasProperty :: "string list \<Rightarrow> val \<Rightarrow> string \<Rightarrow> bool" where
  "hasProperty arrayKeys (VObj kv) k = (k \<in> set (map fst kv) \<or> k \<in> set objectPrototypeKeys)"
| "hasProperty arrayKeys (VProto p kv) k = (k \<in> set (map fst kv) \<or> hasProperty arrayKeys p k)"
| "hasProperty arrayKeys (VArr vs) k =
     (k \<in> set (arrayOwnKeys vs) \<or> k \<in> set arrayKeys \<or> k \<in> set objectPrototypeKeys)"
| "hasProperty arrayKeys v k = False"

text \<open>
  \<open>obj[key]\<close>, for a data property: the own value, else the value found along the
  prototype chain, else undefined. The built-in members are functions and accessors,
  which the model has no values for; the evaluator reads \<open>lgType\<close> and own keys only.
\<close>

fun getProperty :: "val \<Rightarrow> string \<Rightarrow> val" where
  "getProperty (VObj kv) k = (case map_of kv k of Some v \<Rightarrow> v | None \<Rightarrow> VUndefined)"
| "getProperty (VProto p kv) k = (case map_of kv k of Some v \<Rightarrow> v | None \<Rightarrow> getProperty p k)"
| "getProperty (VArr vs) k =
     (case map_of (zip (map showNat [0..<length vs]) vs) k of
        Some v \<Rightarrow> v
      | None \<Rightarrow> if k = ''length'' then VNum (int (length vs)) else VUndefined)"
| "getProperty v k = VUndefined"

text \<open>
  Whether the name \<open>k\<close>, looked up on an object, finds the member of \<open>Object.prototype\<close>:
  the chain reaches \<open>Object.prototype\<close> and nothing before it has a property \<open>k\<close>.
\<close>

fun findsObjectPrototype :: "string list \<Rightarrow> val \<Rightarrow> string \<Rightarrow> bool" where
  "findsObjectPrototype arrayKeys (VObj kv) k = (k \<notin> set (map fst kv))"
| "findsObjectPrototype arrayKeys (VProto p kv) k =
     (k \<notin> set (map fst kv) \<and> findsObjectPrototype arrayKeys p k)"
| "findsObjectPrototype arrayKeys (VArr vs) k =
     (k \<notin> set (arrayOwnKeys vs) \<and> k \<notin> set arrayKeys)"
| "findsObjectPrototype arrayKeys v k = False"

text \<open>
  The method \<open>toString\<close> an object finds: that of \<open>Object.prototype\<close>, that of
  \<open>Array.prototype\<close>, or none that can be called (the chain ends at null, or a data
  property of that name hides the method).
\<close>

datatype toStringKind = ObjectToString | ArrayToString | NoToString

fun toStringOf :: "val \<Rightarrow> toStringKind" where
  "toStringOf (VObj kv) =
     (if ''toString'' \<in> set (map fst kv) then NoToString else ObjectToString)"
| "toStringOf (VProto p kv) =
     (if ''toString'' \<in> set (map fst kv) then NoToString else toStringOf p)"
| "toStringOf (VArr vs) = ArrayToString"
| "toStringOf v = NoToString"

text \<open>
  The implicit string conversion (\<open>'' + v\<close>, \<open>String(v)\<close>): null and undefined spell their
  names, an array joins its elements with commas (null and undefined elements
  contribute nothing), an object calls its \<open>toString\<close>. \<open>None\<close> is a TypeError: the object
  has no \<open>toString\<close> to call, and \<open>valueOf\<close> gives no primitive either.
\<close>

fun stringOf :: "Engine \<Rightarrow> val \<Rightarrow> string option" where
  "stringOf engine VUndefined = Some ''undefined''"
| "stringOf engine VNull = Some ''null''"
| "stringOf engine (VBool b) = Some (if b then ''true'' else ''false'')"
| "stringOf engine (VNum n) = Some (numberToString engine n)"
| "stringOf engine (VStr s) = Some s"
| "stringOf engine (VObj kv) =
     (if ''toString'' \<in> set (map fst kv) then None else Some ''[object Object]'')"
| "stringOf engine (VArr vs) =
     map_option (joinWith '','')
       (those (map (\<lambda>v. if v = VUndefined \<or> v = VNull then Some [] else stringOf engine v) vs))"
| "stringOf engine (VProto p kv) =
     (case toStringOf (VProto p kv) of
        ObjectToString \<Rightarrow> Some ''[object Object]''
      | ArrayToString \<Rightarrow> arrayToString engine (VProto p kv)
      | NoToString \<Rightarrow> None)"

text \<open>
  The method call \<open>v.toString()\<close>: a TypeError (\<open>None\<close>) on null and undefined.
\<close>

fun toStringMethod :: "Engine \<Rightarrow> val \<Rightarrow> string option" where
  "toStringMethod engine VUndefined = None"
| "toStringMethod engine VNull = None"
| "toStringMethod engine v = stringOf engine v"

text \<open>
  \<open>Object.keys\<close>: the own keys, those that are array indices first, in ascending
  order, then the others in insertion order.
\<close>

definition isDigit :: "char \<Rightarrow> bool" where
  "isDigit c = (48 \<le> (of_char c :: nat) \<and> (of_char c :: nat) \<le> 57)"

definition numberOf :: "string \<Rightarrow> nat" where
  "numberOf s = foldl (\<lambda>n c. 10 * n + ((of_char c :: nat) - 48)) 0 s"

definition isArrayIndex :: "string \<Rightarrow> bool" where
  "isArrayIndex k =
     (k \<noteq> [] \<and> list_all isDigit k \<and> (k = ''0'' \<or> hd k \<noteq> CHR ''0'') \<and>
      numberOf k < 2 ^ 32 - 1)"

definition objectKeys :: "(string \<times> val) list \<Rightarrow> string list" where
  "objectKeys kv =
     sort_key numberOf (filter isArrayIndex (map fst kv))
     @ filter (\<lambda>k. \<not> isArrayIndex k) (map fst kv)"

fun properties :: "val \<Rightarrow> (string \<times> val) list" where
  "properties (VObj kv) = kv"
| "properties (VProto p kv) = kv"
| "properties v = []"

text \<open>\<open>String.prototype.toLowerCase\<close> on the ASCII letters of an identifier.\<close>

definition lowerChar :: "char \<Rightarrow> char" where
  "lowerChar c =
     (let n = (of_char c :: nat) in if 65 \<le> n \<and> n \<le> 90 then char_of (n + 32) else c)"

definition toLowerCase :: "string \<Rightarrow> string" where
  "toLowerCase s = map lowerChar s"

text \<open>\<open>String.prototype.trim\<close>: white space is removed at both ends.\<close>

definition isWhiteSpace :: "char \<Rightarrow> bool" where
  "isWhiteSpace c = ((of_char c :: nat) \<in> {9, 10, 11, 12, 13, 32, 160})"

definition trimLeft :: "string \<Rightarrow> string" where
  "trimLeft s = dropWhile isWhiteSpace s"

definition trim :: "string \<Rightarrow> string" where
  "trim s = rev (dropWhile isWhiteSpace (rev (dropWhile isWhiteSpace s)))"

definition startsWith :: "string \<Rightarrow> string \<Rightarrow> bool" where
  "startsWith s p = (take (length p) s = p)"

definition endsWith :: "string \<Rightarrow> string \<Rightarrow> bool" where
  "endsWith s p = (length p \<le> length s \<and> drop (length s - length p) s = p)"

text \<open>
  \<open>newLineRegex = /(\r?\n)/g\<close> with the replacement \<open>'$1$1'\<close>: every match, a line feed
  with the carriage return before it when there is one, is written twice.
\<close>

fun replaceNewLine :: "string \<Rightarrow> string" where
  "replaceNewLine [] = []"
| "replaceNewLine [c] = (if c = LF then [LF, LF] else [c])"
| "replaceNewLine (c # d # cs) =
     (if c = CR \<and> d = LF then [CR, LF, CR, LF] @ replaceNewLine cs
      else if c = LF then [LF, LF] @ replaceNewLine (d # cs)
      else c # replaceNewLine (d # cs))"


fun unescapePipe :: "string \<Rightarrow> string" where
  "unescapePipe [] = []"
| "unescapePipe [c] = [c]"
| "unescapePipe (c # d # cs) =
     (if c = CHR 0x5C \<and> d = CHR ''|'' then CHR ''|'' # unescapePipe cs
      else c # unescapePipe (d # cs))"

section \<open>Parse trees\<close>

text \<open>
  The parse tree of a template body, as the closed sum the visitor dispatches on. An
  expression span is held parsed: \<open>expr\<close> has constants, accessors of a scope variable and
  function calls. Whether a structure value is one pure expression
  (\<open>TemplateExtensions.isPureExpression\<close>) is recorded in the tree.
\<close>

datatype expr =
    Constant val
  | Accessor string
  | Call string "expr list"

datatype node =
    DASH
  | MULTILINE_PREFIX
  | MULTILINE_SUFFIX
  | ESCAPE_CHARACTER string
  | EXPRESSION expr
  | TEXT string

type_synonym normalTemplateString = "node list"

type_synonym normalTemplateBody = "normalTemplateString list"

datatype ifConditionRule = IfConditionRule "expr option" "normalTemplateBody option"

datatype switchCaseStat = SWITCH | CASE | DEFAULT

datatype switchCaseRule = SwitchCaseRule switchCaseStat "expr list" "normalTemplateBody option"

datatype structureValueNode =
    ESCAPE_CHARACTER_IN_STRUCTURE_BODY string
  | EXPRESSION_IN_STRUCTURE_BODY expr
  | STRUCTURE_TEXT string

datatype keyValueStructureValue =
    PureExpression expr
  | StructureNodes "structureValueNode list"

datatype structuredBodyContentLine =
    KeyValueStructureLine string "keyValueStructureValue list"
  | ObjectStructureLine expr

datatype templateBody =
    NormalBody normalTemplateBody
  | IfElseBody "ifConditionRule list"
  | SwitchCaseBody "switchCaseRule list"
  | StructuredTemplateBody string "structuredBodyContentLine list"

record SourceRange =
  startLine :: int
  endLine :: int
  source :: string

record Template =
  name :: string
  parameters :: "string list"
  templateBodyParseTree :: templateBody
  sourceRange :: SourceRange

section \<open>Scopes, frames and the evaluator's state\<close>

text \<open>
  Modelled from the spec: the class CustomizedMemory (customizedMemory.ts), a layered
  key/value view with the template's own variables over a global layer. A layer is a
  JavaScript object or absent; a variable is read from the local layer first and from
  the global layer when the local layer has no value for it.
\<close>

record CustomizedMemory =
  globalMemory :: "val option"
  localMemory :: "val option"

fun layerValue :: "val option \<Rightarrow> string \<Rightarrow> val" where
  "layerValue (Some (VObj kv)) path = (case map_of kv path of Some v \<Rightarrow> v | None \<Rightarrow> VUndefined)"
| "layerValue layer path = VUndefined"

definition getValue :: "CustomizedMemory \<Rightarrow> string \<Rightarrow> val" where
  "getValue memory path =
     (if layerValue (localMemory memory) path \<noteq> VUndefined
      then layerValue (localMemory memory) path
      else layerValue (globalMemory memory) path)"

text \<open>
  The scope handed to \<open>evaluateTemplate\<close> is either a CustomizedMemory or any other
  value, which \<open>new CustomizedMemory(SimpleObjectMemory.wrap(scope))\<close> makes the global
  layer of a memory with no local layer.
\<close>

datatype scopeArg = PlainScope val | MemoryScope CustomizedMemory

fun wrapScope :: "scopeArg \<Rightarrow> CustomizedMemory" where
  "wrapScope (MemoryScope m) = m"
| "wrapScope (PlainScope v) =
     \<lparr>globalMemory = (if truthy v then Some v else None), localMemory = None\<rparr>"

text \<open>
  Modelled from the spec: the class EvaluationTarget (evaluationTarget.ts), a frame of the
  evaluation stack: template name, scope, and the results of the sub-calls the frame has
  made, keyed by the sub-call's fingerprint.
\<close>

record EvaluationTarget =
  templateName :: string
  scope :: CustomizedMemory
  evaluatedChildren :: "(string \<times> val) list"

text \<open>
  Frames are objects: the stack holds references, and \<open>evaluateTemplate\<close> keeps a
  reference to its caller's frame across the evaluation of the body. The state is a
  store of frames (a reference is an index into \<open>frames\<close>, every reference on the stack
  has been allocated), the stack as the array of references with the oldest frame first,
  and the number of random draws made so far.
\<close>

record evalState =
  frames :: "EvaluationTarget list"
  evaluationTargetStack :: "nat list"
  randoms :: nat

definition initialState :: evalState where
  "initialState = \<lparr>frames = [], evaluationTargetStack = [], randoms = 0\<rparr>"

definition stackTargets :: "evalState \<Rightarrow> EvaluationTarget list" where
  "stackTargets st = map (\<lambda>a. frames st ! a) (evaluationTargetStack st)"

definition currentTarget :: "evalState \<Rightarrow> EvaluationTarget option" where
  "currentTarget st =
     (case evaluationTargetStack st of [] \<Rightarrow> None | a # as \<Rightarrow> Some (frames st ! last (a # as)))"

definition push :: "EvaluationTarget \<Rightarrow> evalState \<Rightarrow> evalState" where
  "push target st =
     st\<lparr>frames := frames st @ [target],
        evaluationTargetStack := evaluationTargetStack st @ [length (frames st)]\<rparr>"

definition pop :: "evalState \<Rightarrow> evalState" where
  "pop st = st\<lparr>evaluationTargetStack := butlast (evaluationTargetStack st)\<rparr>"

definition setEvaluatedChild :: "nat \<Rightarrow> string \<Rightarrow> val \<Rightarrow> evalState \<Rightarrow> evalState" where
  "setEvaluatedChild a key v st =
     st\<lparr>frames := (frames st)[a := (frames st ! a)
          \<lparr>evaluatedChildren := AList.update key v (evaluatedChildren (frames st ! a))\<rparr>]\<rparr>"

section \<open>Diagnostics, errors, options\<close>

datatype DiagnosticSeverity = Error | Warning | Information | Hint

text \<open>
  Modelled from the spec: the class Diagnostic (diagnostic.ts): severity, source range
  and message.
\<close>

record Diagnostic =
  severity :: DiagnosticSeverity
  rangeStart :: int
  rangeEnd :: int
  message :: string

text \<open>
  A thrown \<open>Error\<close>, by what its message reports. \<open>ErrorExpression child t\<close> is the error
  of \<open>checkExpressionResult\<close>: the child message (of the failed expression, or of a null
  result) followed by the message naming the template \<open>t\<close>.
\<close>

datatype error =
    TemplateNameEmpty
  | TemplateNotExist string
  | LoopDetected "string list"
  | InvalidMemory
  | TypeError
  | FunctionError string
  | UnknownFunction string
  | ArgumentMismatch string nat nat
  | InvalidTemplateName
  | NullExpression
  | ErrorExpression "error option" string
  | TemplateExist string
  | IndexOutOfRange
  | DiagnosticErrors "Diagnostic list"

datatype LGLineBreakStyle = Default | Markdown

record EvaluationOptions =
  strictMode :: bool
  LineBreakStyle :: LGLineBreakStyle
  nullSubstitution :: "(string \<Rightarrow> val) option"

text \<open>
  What the evaluator takes from the expression library (adaptive-expressions), whose
  sources are outside this repository: the standard functions (\<open>baseLookup\<close>) with the
  validator each of them runs on its call when the expression is parsed, the
  validators \<open>validateAtLeastOne\<close>, \<open>validateUnaryString\<close> and \<open>validateOrder\<close> (as used for
  \<open>ActivityAttachment\<close>), and whether the return type of an expression includes
  \<open>Object\<close> or \<open>String\<close>. A validator gets the arguments of the call and answers with the
  error it throws, if any.
\<close>

record ExpressionLibrary =
  standardValidator :: "string \<Rightarrow> expr list \<Rightarrow> error option"
  validateAtLeastOne :: "expr list \<Rightarrow> error option"
  validateUnaryString :: "expr list \<Rightarrow> error option"
  validateAttachmentOrder :: "expr list \<Rightarrow> error option"
  returnsObjectOrString :: "expr \<Rightarrow> bool"

text \<open>
  The evaluator: its templates and options, and what it takes from outside this
  repository's sources: the JavaScript engine, the expression library and its standard
  functions (\<open>baseLookup\<close>), \<open>TemplateExtensions.evalEscape\<close>, \<open>JSON.stringify\<close>, the draws
  of \<open>Math.random\<close> (the k-th draw, reduced to an index) and \<open>EvaluationTarget.getId\<close>.
\<close>

record Evaluator =
  templates :: "Template list"
  lgOptions :: EvaluationOptions
  engine :: Engine
  library :: ExpressionLibrary
  baseLookup :: "string \<Rightarrow> (val list \<Rightarrow> error + val) option"
  evalEscape :: "string \<Rightarrow> string"
  jsonStringify :: "val \<Rightarrow> string"
  mathRandom :: "nat \<Rightarrow> nat"
  getId :: "string \<Rightarrow> CustomizedMemory \<Rightarrow> string"

text \<open>
  \<open>templateMap = keyBy(templates, name)\<close>: a plain object, so a later template of the
  same name replaces an earlier one and \<open>name in templateMap\<close> also holds for the
  inherited names.
\<close>

definition templateMap :: "Evaluator \<Rightarrow> string \<Rightarrow> Template option" where
  "templateMap env n = find (\<lambda>t. name t = n) (rev (templates env))"

definition inTemplateMap :: "Evaluator \<Rightarrow> string \<Rightarrow> bool" where
  "inTemplateMap env n = (n \<in> set (map name (templates env)) \<or> n \<in> set objectPrototypeKeys)"

definition LGType :: string where
  "LGType = ''lgType''"

definition ReExecuteSuffix :: string where
  "ReExecuteSuffix = ''!''"

text \<open>
  The outcome of a piece of evaluation: \<open>None\<close> when the fuel of the recursion ran out,
  otherwise the thrown error or the returned value, each with the state left behind.
\<close>

type_synonym 'a result = "((error + 'a) \<times> evalState) option"

definition andThen :: "'a result \<Rightarrow> ('a \<Rightarrow> evalState \<Rightarrow> 'b result) \<Rightarrow> 'b result" where
  "andThen r f =
     (case r of
        None \<Rightarrow> None
      | Some (Inl e, st) \<Rightarrow> Some (Inl e, st)
      | Some (Inr v, st) \<Rightarrow> f v st)"

definition throw :: "error \<Rightarrow> evalState \<Rightarrow> 'a result" where
  "throw e st = Some (Inl e, st)"

definition return :: "'a \<Rightarrow> evalState \<Rightarrow> 'a result" where
  "return v st = Some (Inr v, st)"


section \<open>The evaluator\<close>

text \<open>
  \<open>parseTemplateName\<close>: the flag of the trailing re-execute marker and the name
  without it (\<open>pureTemplateName\<close>).
\<close>

definition parseTemplateName :: "string \<Rightarrow> error + (bool \<times> string)" where
  "parseTemplateName inputTemplateName =
     (if inputTemplateName = [] then Inl TemplateNameEmpty
      else if endsWith inputTemplateName ReExecuteSuffix
      then Inr (True, take (length inputTemplateName - length ReExecuteSuffix) inputTemplateName)
      else Inr (False, inputTemplateName))"

text \<open>
  \<open>constructScope\<close>. The object \<open>newScope\<close> gets one property per declared parameter, in
  order, its value the argument at the same index (undefined past the last argument).
\<close>

fun bindParameters ::
  "string list \<Rightarrow> val list \<Rightarrow> (string \<times> val) list \<Rightarrow> (string \<times> val) list" where
  "bindParameters [] args newScope = newScope"
| "bindParameters (e # es) args newScope =
     bindParameters es (tl args)
       (AList.update e (case args of [] \<Rightarrow> VUndefined | a # as \<Rightarrow> a) newScope)"

definition constructScope ::
  "Evaluator \<Rightarrow> string \<Rightarrow> val list \<Rightarrow> evalState \<Rightarrow> error + CustomizedMemory" where
  "constructScope env inputTemplateName args st =
     (case parseTemplateName inputTemplateName of
        Inl e \<Rightarrow> Inl e
      | Inr (reExecute, pureTemplateName) \<Rightarrow>
          if \<not> inTemplateMap env pureTemplateName then Inl (TemplateNotExist pureTemplateName)
          else
            (case currentTarget st of
               None \<Rightarrow> Inl TypeError
             | Some target \<Rightarrow>
                 let currentScope = scope target in
                 if args = [] then Inr currentScope
                 else
                   (case templateMap env pureTemplateName of
                      None \<Rightarrow> Inl TypeError
                    | Some template \<Rightarrow>
                        Inr \<lparr>globalMemory = globalMemory currentScope,
                             localMemory =
                               Some (VObj (bindParameters (parameters template) args []))\<rparr>)))"

text \<open>
  The expression library returns from an evaluation a value and an error; an exception
  thrown inside the function of an evaluator is caught and becomes the error.
\<close>

type_synonym 'a valueWithError = "(('a \<times> error option) \<times> evalState) option"

definition caught :: "val result \<Rightarrow> val valueWithError" where
  "caught r =
     (case r of
        None \<Rightarrow> None
      | Some (Inl e, st) \<Rightarrow> Some ((VUndefined, Some e), st)
      | Some (Inr v, st) \<Rightarrow> Some ((v, None), st))"

text \<open>
  \<open>templateEvaluator\<close> and \<open>templateFunction\<close>: build the callee's scope, then evaluate
  the template (\<open>ev\<close> is \<open>evaluateTemplate\<close>).
\<close>

definition templateEvaluator ::
  "(string \<Rightarrow> scopeArg \<Rightarrow> evalState \<Rightarrow> val result) \<Rightarrow> Evaluator \<Rightarrow> string \<Rightarrow> val list \<Rightarrow>
   evalState \<Rightarrow> val result" where
  "templateEvaluator ev env inputTemplateName args st =
     (case constructScope env inputTemplateName args st of
        Inl e \<Rightarrow> throw e st
      | Inr newScope \<Rightarrow> ev inputTemplateName (MemoryScope newScope) st)"

definition templateFunction ::
  "(string \<Rightarrow> scopeArg \<Rightarrow> evalState \<Rightarrow> val result) \<Rightarrow> Evaluator \<Rightarrow> val list \<Rightarrow>
   evalState \<Rightarrow> val result" where
  "templateFunction ev env args st =
     (case args of
        [] \<Rightarrow> throw TemplateNameEmpty st
      | VStr inputTemplateName # rest \<Rightarrow> templateEvaluator ev env inputTemplateName rest st
      | v # rest \<Rightarrow> if truthy v then throw TypeError st else throw TemplateNameEmpty st)"

definition activityAttachment :: "Evaluator \<Rightarrow> val list \<Rightarrow> evalState \<Rightarrow> val result" where
  "activityAttachment env args st =
     (case args of
        content # contenttype # rest \<Rightarrow>
          (case toStringMethod (engine env) contenttype of
             None \<Rightarrow> throw TypeError st
           | Some s \<Rightarrow>
               return (VObj [(LGType, VStr ''attachment''), (''contenttype'', VStr s),
                             (''content'', content)]) st)
      | _ \<Rightarrow> throw TypeError st)"

definition isTemplate :: "Evaluator \<Rightarrow> val list \<Rightarrow> evalState \<Rightarrow> val result" where
  "isTemplate env args st =
     (case args of
        [] \<Rightarrow> throw TypeError st
      | a # rest \<Rightarrow>
          (case toStringMethod (engine env) a of
             None \<Rightarrow> throw TypeError st
           | Some pureTemplateName \<Rightarrow> return (VBool (inTemplateMap env pureTemplateName)) st))"

text \<open>
  \<open>customizedEvaluatorLookup\<close>: a standard function of the expression library first,
  then a template name (with or without the prefix \<open>lg.\<close>), then the built-in names;
  \<open>None\<close> is the answer \<open>undefined\<close>. The evaluator found is named by its kind: a template
  reference keeps the name as written and the name without the re-execute marker,
  which is the type of the expression. \<open>fromFile\<close> reads the file system and is not part
  of the model; its name resolves to nothing here.
\<close>

datatype expressionEvaluator =
    StandardEvaluator "val list \<Rightarrow> error + val"
  | TemplateReference string string
  | TemplateCall
  | AttachmentCall
  | IsTemplateCall

definition customizedEvaluatorLookup :: "Evaluator \<Rightarrow> string \<Rightarrow> error + expressionEvaluator option" where
  "customizedEvaluatorLookup env name0 =
     (case baseLookup env name0 of
        Some standardFunction \<Rightarrow> Inr (Some (StandardEvaluator standardFunction))
      | None \<Rightarrow>
          let name1 = (if startsWith name0 ''lg.'' then drop 3 name0 else name0) in
          (case parseTemplateName name1 of
             Inl e \<Rightarrow> Inl e
           | Inr (reExecute, pureTemplateName) \<Rightarrow>
               if inTemplateMap env pureTemplateName
               then Inr (Some (TemplateReference name1 pureTemplateName))
               else if name1 = ''template'' then Inr (Some TemplateCall)
               else if name1 = ''ActivityAttachment'' then Inr (Some AttachmentCall)
               else if name1 = ''isTemplate'' then Inr (Some IsTemplateCall)
               else Inr None))"

text \<open>
  \<open>checkTemplateReference\<close>: the template must exist, and a call with arguments must
  give as many as the template has parameters. (For an inherited name
  \<open>templateMap[templateName]\<close> is no template, and reading the length of its parameters
  is a TypeError.)
\<close>

definition checkTemplateReference :: "Evaluator \<Rightarrow> string \<Rightarrow> expr list \<Rightarrow> error option" where
  "checkTemplateReference env tName children =
     (if \<not> inTemplateMap env tName then Some (TemplateNotExist tName)
      else
        (case templateMap env tName of
           None \<Rightarrow> Some TypeError
         | Some template \<Rightarrow>
             let expectedArgsCount = length (parameters template);
                 actualArgsCount = length children
             in if actualArgsCount \<noteq> 0 \<and> expectedArgsCount \<noteq> actualArgsCount
                then Some (ArgumentMismatch tName expectedArgsCount actualArgsCount)
                else None))"

text \<open>
  \<open>validateTemplateFunction\<close>, the validator of \<open>template(...)\<close>: at least one argument,
  the first of a type that can be a name, and when it is a constant the reference is
  checked with the remaining arguments. (The constant is used as a property key, so a
  value that is not a string is converted to one.)
\<close>

definition validateTemplateFunction :: "Evaluator \<Rightarrow> expr list \<Rightarrow> error option" where
  "validateTemplateFunction env children =
     (case validateAtLeastOne (library env) children of
        Some e \<Rightarrow> Some e
      | None \<Rightarrow>
          (case children of
             [] \<Rightarrow> Some TypeError
           | children0 # rest \<Rightarrow>
               if \<not> returnsObjectOrString (library env) children0 then Some InvalidTemplateName
               else
                 (case children0 of
                    Constant v \<Rightarrow>
                      (case stringOf (engine env) v of
                         None \<Rightarrow> Some TypeError
                       | Some tName \<Rightarrow> checkTemplateReference env tName rest)
                  | _ \<Rightarrow> None)))"

text \<open>
  The validator each kind of evaluator carries; \<open>validTemplateReference\<close> checks the
  reference under the type of the expression.
\<close>

definition validTemplateReference :: "Evaluator \<Rightarrow> string \<Rightarrow> expr list \<Rightarrow> error option" where
  "validTemplateReference env expressionType children =
     checkTemplateReference env expressionType children"

definition validator ::
  "Evaluator \<Rightarrow> string \<Rightarrow> expressionEvaluator \<Rightarrow> expr list \<Rightarrow> error option" where
  "validator env name0 found children =
     (case found of
        StandardEvaluator standardFunction \<Rightarrow> standardValidator (library env) name0 children
      | TemplateReference name1 pureTemplateName \<Rightarrow>
          validTemplateReference env pureTemplateName children
      | TemplateCall \<Rightarrow> validateTemplateFunction env children
      | AttachmentCall \<Rightarrow> validateAttachmentOrder (library env) children
      | IsTemplateCall \<Rightarrow> validateUnaryString (library env) children)"

text \<open>
  Modelled from the spec: \<open>ExpressionParser.parse\<close> of the library adaptive-expressions.
  The arguments of a call are parsed first; then the function is looked up, a name with
  no evaluator being an error, and the evaluator's validator runs on the call. The
  answer is the error thrown, if any.
\<close>

fun parse :: "Evaluator \<Rightarrow> expr \<Rightarrow> error option"
and parseChildren :: "Evaluator \<Rightarrow> expr list \<Rightarrow> error option" where
  "parse env (Constant v) = None"
| "parse env (Accessor path) = None"
| "parse env (Call f children) =
     (case parseChildren env children of
        Some e \<Rightarrow> Some e
      | None \<Rightarrow>
          (case customizedEvaluatorLookup env f of
             Inl e \<Rightarrow> Some e
           | Inr None \<Rightarrow> Some (UnknownFunction f)
           | Inr (Some found) \<Rightarrow> validator env f found children))"
| "parseChildren env [] = None"
| "parseChildren env (child # children) =
     (case parse env child of
        Some e \<Rightarrow> Some e
      | None \<Rightarrow> parseChildren env children)"

text \<open>
  The function of an evaluator, applied to evaluated arguments
  (\<open>ExpressionFunctions.apply\<close>): an exception thrown by the function is caught and
  becomes the error.
\<close>

definition applyEvaluator ::
  "(string \<Rightarrow> scopeArg \<Rightarrow> evalState \<Rightarrow> val result) \<Rightarrow> Evaluator \<Rightarrow> expressionEvaluator \<Rightarrow>
   val list \<Rightarrow> evalState \<Rightarrow> val valueWithError" where
  "applyEvaluator ev env found args st =
     (case found of
        StandardEvaluator standardFunction \<Rightarrow>
          (case standardFunction args of
             Inl e \<Rightarrow> Some ((VUndefined, Some e), st)
           | Inr v \<Rightarrow> Some ((v, None), st))
      | TemplateReference name1 pureTemplateName \<Rightarrow>
          caught (templateEvaluator ev env name1 args st)
      | TemplateCall \<Rightarrow> caught (templateFunction ev env args st)
      | AttachmentCall \<Rightarrow> caught (activityAttachment env args st)
      | IsTemplateCall \<Rightarrow> caught (isTemplate env args st))"

text \<open>
  Modelled from the spec: the bridged expression evaluator (the library
  adaptive-expressions, \<open>Expression.tryEvaluate\<close>). It returns a value and an error; the
  arguments of a call are evaluated in order up to the first error, then the evaluator
  found for the name is applied. A variable is read from the scope, the configured null
  substitution standing in for a missing value.
\<close>

fun tryEvaluate ::
  "(string \<Rightarrow> scopeArg \<Rightarrow> evalState \<Rightarrow> val result) \<Rightarrow> Evaluator \<Rightarrow> expr \<Rightarrow>
   CustomizedMemory \<Rightarrow> evalState \<Rightarrow> val valueWithError"
and evaluateChildren ::
  "(string \<Rightarrow> scopeArg \<Rightarrow> evalState \<Rightarrow> val result) \<Rightarrow> Evaluator \<Rightarrow> expr list \<Rightarrow>
   CustomizedMemory \<Rightarrow> evalState \<Rightarrow> (val list) valueWithError" where
  "tryEvaluate ev env (Constant v) memory st = Some ((v, None), st)"
| "tryEvaluate ev env (Accessor path) memory st =
     (let v = getValue memory path in
      Some ((if v = VUndefined
             then (case nullSubstitution (lgOptions env) of
                     None \<Rightarrow> VUndefined
                   | Some substitute \<Rightarrow> substitute path)
             else v, None), st))"
| "tryEvaluate ev env (Call f children) memory st =
     (case evaluateChildren ev env children memory st of
        None \<Rightarrow> None
      | Some ((args, Some e), st1) \<Rightarrow> Some ((VUndefined, Some e), st1)
      | Some ((args, None), st1) \<Rightarrow>
          (case customizedEvaluatorLookup env f of
             Inr (Some found) \<Rightarrow> applyEvaluator ev env found args st1
           | _ \<Rightarrow> Some ((VUndefined, Some (UnknownFunction f)), st1)))"
| "evaluateChildren ev env [] memory st = Some (([], None), st)"
| "evaluateChildren ev env (child # children) memory st =
     (case tryEvaluate ev env child memory st of
        None \<Rightarrow> None
      | Some ((v, Some e), st1) \<Rightarrow> Some (([], Some e), st1)
      | Some ((v, None), st1) \<Rightarrow>
          (case evaluateChildren ev env children memory st1 of
             None \<Rightarrow> None
           | Some ((vs, e), st2) \<Rightarrow> Some ((v # vs, e), st2)))"

text \<open>
  \<open>evalByAdaptiveExpression\<close>: the expression is parsed, which may throw, and the parsed
  expression evaluated, which returns a value and an error.
\<close>

definition evalByAdaptiveExpression ::
  "(string \<Rightarrow> scopeArg \<Rightarrow> evalState \<Rightarrow> val result) \<Rightarrow> Evaluator \<Rightarrow> expr \<Rightarrow>
   CustomizedMemory \<Rightarrow> evalState \<Rightarrow> (val \<times> error option) result" where
  "evalByAdaptiveExpression ev env exp memory st =
     (case parse env exp of
        Some e \<Rightarrow> throw e st
      | None \<Rightarrow>
          (case tryEvaluate ev env exp memory st of
             None \<Rightarrow> None
           | Some (valueAndError, st1) \<Rightarrow> return valueAndError st1))"

text \<open>
  \<open>checkExpressionResult\<close> always throws: the child message is the expression's error,
  or the null-expression message when there is no error and the result is falsy.
\<close>

definition checkExpressionResult :: "error option \<Rightarrow> val \<Rightarrow> string \<Rightarrow> error" where
  "checkExpressionResult err result currentName =
     ErrorExpression
       (case err of
          Some e \<Rightarrow> Some e
        | None \<Rightarrow> if \<not> truthy result then Some NullExpression else None)
       currentName"

text \<open>
  \<open>evalExpression\<close> and \<open>evalExpressionInCondition\<close>. An exception of the parse passes
  through with the stack as it is; an error of the evaluation (and, in strict mode, a
  missing or falsy result) pops the stack and is thrown by \<open>checkExpressionResult\<close>.
\<close>

definition evalExpression ::
  "(string \<Rightarrow> scopeArg \<Rightarrow> evalState \<Rightarrow> val result) \<Rightarrow> Evaluator \<Rightarrow> expr \<Rightarrow> evalState \<Rightarrow>
   val result" where
  "evalExpression ev env exp st =
     (case currentTarget st of
        None \<Rightarrow> throw TypeError st
      | Some target \<Rightarrow>
          (case evalByAdaptiveExpression ev env exp (scope target) st of
             None \<Rightarrow> None
           | Some (Inl e, st1) \<Rightarrow> Some (Inl e, st1)
           | Some (Inr (result, err), st1) \<Rightarrow>
               if err \<noteq> None \<or> (result = VUndefined \<and> strictMode (lgOptions env)) then
                 (case currentTarget st1 of
                    None \<Rightarrow> throw TypeError st1
                  | Some target1 \<Rightarrow>
                      throw (checkExpressionResult err result (templateName target1)) (pop st1))
               else if result = VUndefined \<and> \<not> strictMode (lgOptions env)
               then return (VStr ''null'') st1
               else return result st1))"

definition evalExpressionInCondition ::
  "(string \<Rightarrow> scopeArg \<Rightarrow> evalState \<Rightarrow> val result) \<Rightarrow> Evaluator \<Rightarrow> expr \<Rightarrow> evalState \<Rightarrow>
   bool result" where
  "evalExpressionInCondition ev env exp st =
     (case currentTarget st of
        None \<Rightarrow> throw TypeError st
      | Some target \<Rightarrow>
          (case evalByAdaptiveExpression ev env exp (scope target) st of
             None \<Rightarrow> None
           | Some (Inl e, st1) \<Rightarrow> Some (Inl e, st1)
           | Some (Inr (result, err), st1) \<Rightarrow>
               if strictMode (lgOptions env) \<and> (err \<noteq> None \<or> \<not> truthy result) then
                 (case currentTarget st1 of
                    None \<Rightarrow> throw TypeError st1
                  | Some target1 \<Rightarrow>
                      throw (checkExpressionResult err result (templateName target1)) (pop st1))
               else if err \<noteq> None \<or> \<not> truthy result then return False st1
               else return True st1))"

definition evalCondition ::
  "(string \<Rightarrow> scopeArg \<Rightarrow> evalState \<Rightarrow> val result) \<Rightarrow> Evaluator \<Rightarrow> expr option \<Rightarrow>
   evalState \<Rightarrow> bool result" where
  "evalCondition ev env condition st =
     (case condition of
        None \<Rightarrow> return True st
      | Some expression \<Rightarrow> evalExpressionInCondition ev env expression st)"


text \<open>
  \<open>visitNormalTemplateString\<close>: the pieces of the chosen candidate, in order; a single
  piece that is not a string is returned as it is, otherwise the pieces are joined.
\<close>

fun normalTemplateStringNodes ::
  "(string \<Rightarrow> scopeArg \<Rightarrow> evalState \<Rightarrow> val result) \<Rightarrow> Evaluator \<Rightarrow> node list \<Rightarrow>
   val list \<Rightarrow> evalState \<Rightarrow> (val list) result" where
  "normalTemplateStringNodes ev env [] result st = return result st"
| "normalTemplateStringNodes ev env (innerNode # rest) result st =
     (case innerNode of
        MULTILINE_SUFFIX \<Rightarrow> normalTemplateStringNodes ev env rest result st
      | MULTILINE_PREFIX \<Rightarrow> normalTemplateStringNodes ev env rest result st
      | DASH \<Rightarrow> normalTemplateStringNodes ev env rest result st
      | ESCAPE_CHARACTER text \<Rightarrow>
          normalTemplateStringNodes ev env rest (result @ [VStr (evalEscape env text)]) st
      | EXPRESSION exp \<Rightarrow>
          andThen (evalExpression ev env exp st)
            (\<lambda>v st1. normalTemplateStringNodes ev env rest (result @ [v]) st1)
      | TEXT text \<Rightarrow> normalTemplateStringNodes ev env rest (result @ [VStr text]) st)"

definition joinPieces :: "Evaluator \<Rightarrow> val list \<Rightarrow> val" where
  "joinPieces env result =
     VStr (concat (map (\<lambda>u. case u of VStr s \<Rightarrow> s | _ \<Rightarrow> jsonStringify env u) result))"

definition visitNormalTemplateString ::
  "(string \<Rightarrow> scopeArg \<Rightarrow> evalState \<Rightarrow> val result) \<Rightarrow> Evaluator \<Rightarrow> node list \<Rightarrow>
   evalState \<Rightarrow> val result" where
  "visitNormalTemplateString ev env children st =
     andThen (normalTemplateStringNodes ev env children [] st)
       (\<lambda>result st1.
          case result of
            [u] \<Rightarrow> if \<not> isString u then return u st1 else return (joinPieces env result) st1
          | _ \<Rightarrow> return (joinPieces env result) st1)"

text \<open>
  \<open>visitNormalTemplateBody\<close>: one candidate is picked at random; no candidate at all
  is a TypeError on the missing element.
\<close>

definition visitNormalTemplateBody ::
  "(string \<Rightarrow> scopeArg \<Rightarrow> evalState \<Rightarrow> val result) \<Rightarrow> Evaluator \<Rightarrow> normalTemplateBody \<Rightarrow>
   evalState \<Rightarrow> val result" where
  "visitNormalTemplateBody ev env normalTemplateStrs st =
     (let randomNumber = mathRandom env (randoms st) mod length normalTemplateStrs;
          st1 = st\<lparr>randoms := Suc (randoms st)\<rparr>
      in if normalTemplateStrs = [] then throw TypeError st1
         else visitNormalTemplateString ev env (normalTemplateStrs ! randomNumber) st1)"

fun visitIfElseBody ::
  "(string \<Rightarrow> scopeArg \<Rightarrow> evalState \<Rightarrow> val result) \<Rightarrow> Evaluator \<Rightarrow> ifConditionRule list \<Rightarrow>
   evalState \<Rightarrow> val result" where
  "visitIfElseBody ev env [] st = return VUndefined st"
| "visitIfElseBody ev env (IfConditionRule ifCondition body # ifRules) st =
     andThen (evalCondition ev env ifCondition st)
       (\<lambda>holds st1.
          case body of
            Some normalBody \<Rightarrow>
              if holds then visitNormalTemplateBody ev env normalBody st1
              else visitIfElseBody ev env ifRules st1
          | None \<Rightarrow> visitIfElseBody ev env ifRules st1)"

text \<open>
  \<open>visitSwitchCaseBody\<close>: the loop runs over all the nodes with the counter \<open>idx\<close>,
  skipping the node at index 0, which is the switch statement.
\<close>

fun switchCaseNodes ::
  "(string \<Rightarrow> scopeArg \<Rightarrow> evalState \<Rightarrow> val result) \<Rightarrow> Evaluator \<Rightarrow> string \<Rightarrow> int \<Rightarrow> int \<Rightarrow>
   switchCaseRule list \<Rightarrow> evalState \<Rightarrow> val result" where
  "switchCaseNodes ev env switchExprResult len idx [] st = return VUndefined st"
| "switchCaseNodes ev env switchExprResult len idx (SwitchCaseRule stat caseExprs body # rest) st =
     (if idx = 0 then switchCaseNodes ev env switchExprResult len (idx + 1) rest st
      else if idx = len - 1 \<and> stat = DEFAULT then
        (case body of
           Some defaultBody \<Rightarrow> visitNormalTemplateBody ev env defaultBody st
         | None \<Rightarrow> return VUndefined st)
      else
        (case caseExprs of
           [] \<Rightarrow> throw TypeError st
         | caseExpr # others \<Rightarrow>
             andThen (evalExpression ev env caseExpr st)
               (\<lambda>v st1.
                  case toStringMethod (engine env) v of
                    None \<Rightarrow> throw TypeError st1
                  | Some caseExprResult \<Rightarrow>
                      if switchExprResult = caseExprResult then
                        (case body of
                           Some caseBody \<Rightarrow> visitNormalTemplateBody ev env caseBody st1
                         | None \<Rightarrow> throw TypeError st1)
                      else switchCaseNodes ev env switchExprResult len (idx + 1) rest st1)))"

definition visitSwitchCaseBody ::
  "(string \<Rightarrow> scopeArg \<Rightarrow> evalState \<Rightarrow> val result) \<Rightarrow> Evaluator \<Rightarrow> switchCaseRule list \<Rightarrow>
   evalState \<Rightarrow> val result" where
  "visitSwitchCaseBody ev env switchcaseNodes st =
     (case switchcaseNodes of
        [] \<Rightarrow> throw TypeError st
      | SwitchCaseRule stat switchExprs body # rest \<Rightarrow>
          (case switchExprs of
             [] \<Rightarrow> throw TypeError st
           | switchExpr # others \<Rightarrow>
               andThen (evalExpression ev env switchExpr st)
                 (\<lambda>v st1.
                    case toStringMethod (engine env) v of
                      None \<Rightarrow> throw TypeError st1
                    | Some switchExprResult \<Rightarrow>
                        switchCaseNodes ev env switchExprResult (int (length switchcaseNodes)) 0
                          switchcaseNodes st1)))"

text \<open>
  \<open>visitStructureValue\<close>: each value item is a pure expression, or a run of pieces that
  are concatenated as strings and trimmed; one item stands for itself, several make an
  array.
\<close>

fun structureValueNodes ::
  "(string \<Rightarrow> scopeArg \<Rightarrow> evalState \<Rightarrow> val result) \<Rightarrow> Evaluator \<Rightarrow> structureValueNode list \<Rightarrow>
   string \<Rightarrow> evalState \<Rightarrow> string result" where
  "structureValueNodes ev env [] itemStringResult st = return itemStringResult st"
| "structureValueNodes ev env (child # rest) itemStringResult st =
     (case child of
        ESCAPE_CHARACTER_IN_STRUCTURE_BODY text \<Rightarrow>
          structureValueNodes ev env rest
            (itemStringResult @ evalEscape env (unescapePipe text)) st
      | EXPRESSION_IN_STRUCTURE_BODY exp \<Rightarrow>
          andThen (evalExpression ev env exp st)
            (\<lambda>v st1.
               case stringOf (engine env) v of
                 None \<Rightarrow> throw TypeError st1
               | Some text \<Rightarrow> structureValueNodes ev env rest (itemStringResult @ text) st1)
      | STRUCTURE_TEXT text \<Rightarrow>
          structureValueNodes ev env rest (itemStringResult @ text) st)"

fun structureValueItems ::
  "(string \<Rightarrow> scopeArg \<Rightarrow> evalState \<Rightarrow> val result) \<Rightarrow> Evaluator \<Rightarrow>
   keyValueStructureValue list \<Rightarrow> val list \<Rightarrow> evalState \<Rightarrow> (val list) result" where
  "structureValueItems ev env [] result st = return result st"
| "structureValueItems ev env (item # rest) result st =
     (case item of
        PureExpression exp \<Rightarrow>
          andThen (evalExpression ev env exp st)
            (\<lambda>v st1. structureValueItems ev env rest (result @ [v]) st1)
      | StructureNodes children \<Rightarrow>
          andThen (structureValueNodes ev env children [] st)
            (\<lambda>itemStringResult st1.
               structureValueItems ev env rest (result @ [VStr (trim itemStringResult)]) st1))"

definition visitStructureValue ::
  "(string \<Rightarrow> scopeArg \<Rightarrow> evalState \<Rightarrow> val result) \<Rightarrow> Evaluator \<Rightarrow>
   keyValueStructureValue list \<Rightarrow> evalState \<Rightarrow> val result" where
  "visitStructureValue ev env values st =
     andThen (structureValueItems ev env values [] st)
       (\<lambda>result st1. case result of [v] \<Rightarrow> return v st1 | _ \<Rightarrow> return (VArr result) st1)"

text \<open>
  \<open>visitStructuredTemplateBody\<close> builds the object \<open>result\<close>, starting from \<open>{}\<close>. While
  it is built, the object is held as its prototype, if that has been replaced, and the
  list of its own properties.
\<close>

type_synonym structured = "val option \<times> (string \<times> val) list"

definition toObject :: "structured \<Rightarrow> val" where
  "toObject result =
     (case fst result of
        None \<Rightarrow> VObj (snd result)
      | Some prototype \<Rightarrow> VProto prototype (snd result))"

text \<open>
  The assignment \<open>result[key] = value\<close>. An own key is overwritten. The key \<open>__proto__\<close>,
  when it is not an own key and the accessor of \<open>Object.prototype\<close> is found for it, runs
  the setter: an object or null becomes the prototype of \<open>result\<close>, any other value is
  dropped; no own key is stored. Every other key becomes an own key.
\<close>

definition assign :: "string list \<Rightarrow> structured \<Rightarrow> string \<Rightarrow> val \<Rightarrow> structured" where
  "assign arrayKeys result key v =
     (if key \<in> set (map fst (snd result)) then (fst result, AList.update key v (snd result))
      else if key = ''__proto__'' \<and>
              (case fst result of
                 None \<Rightarrow> True
               | Some prototype \<Rightarrow> findsObjectPrototype arrayKeys prototype ''__proto__'')
      then (if typeofObject v then (Some v, snd result) else result)
      else (fst result, AList.update key v (snd result)))"

text \<open>
  An object line copies, from a referenced object of the same type, the keys that are
  not yet \<open>in result\<close>. (\<open>'lgType' in null\<close> is a TypeError, in an array it is false; the call
  \<open>propertyObject.hasOwnProperty(key)\<close> is a TypeError when the object finds no such
  method, and true for every key of \<open>Object.keys\<close> otherwise.)
\<close>

definition propertyOf :: "(string \<times> val) list \<Rightarrow> string \<Rightarrow> val" where
  "propertyOf obj key = (case map_of obj key of Some v \<Rightarrow> v | None \<Rightarrow> VUndefined)"

fun mergeKeys ::
  "string list \<Rightarrow> (string \<times> val) list \<Rightarrow> string list \<Rightarrow> structured \<Rightarrow> structured" where
  "mergeKeys arrayKeys propertyObject [] result = result"
| "mergeKeys arrayKeys propertyObject (key # keys) result =
     mergeKeys arrayKeys propertyObject keys
       (if \<not> hasProperty arrayKeys (toObject result) key
        then assign arrayKeys result key (propertyOf propertyObject key)
        else result)"

text \<open>
  The body of the loop for an object line, on the evaluated reference: the result with
  the keys of the referenced object merged in, the result as it is when the reference
  is not an object of the same type, or the TypeError thrown.
\<close>

definition mergeObject :: "Evaluator \<Rightarrow> string \<Rightarrow> val \<Rightarrow> structured \<Rightarrow> error + structured" where
  "mergeObject env typeName propertyObject result =
     (if propertyObject = VNull then Inl TypeError
      else if typeofObject propertyObject \<and>
              hasProperty (arrayPrototypeKeys (engine env)) propertyObject LGType
      then
        (case toStringMethod (engine env) (getProperty propertyObject LGType) of
           None \<Rightarrow> Inl TypeError
         | Some declared \<Rightarrow>
             if declared = typeName then
               (if objectKeys (properties propertyObject) \<noteq> [] \<and>
                   \<not> findsObjectPrototype (arrayPrototypeKeys (engine env)) propertyObject
                       ''hasOwnProperty''
                then Inl TypeError
                else Inr (mergeKeys (arrayPrototypeKeys (engine env)) (properties propertyObject)
                            (objectKeys (properties propertyObject)) result))
             else Inr result)
      else Inr result)"

fun structuredBodyContentLines ::
  "(string \<Rightarrow> scopeArg \<Rightarrow> evalState \<Rightarrow> val result) \<Rightarrow> Evaluator \<Rightarrow> string \<Rightarrow>
   structuredBodyContentLine list \<Rightarrow> structured \<Rightarrow> evalState \<Rightarrow> structured result" where
  "structuredBodyContentLines ev env typeName [] result st = return result st"
| "structuredBodyContentLines ev env typeName (body # bodys) result st =
     (case body of
        KeyValueStructureLine identifier values \<Rightarrow>
          (let property = toLowerCase identifier in
           andThen (visitStructureValue ev env values st)
             (\<lambda>v st1.
                structuredBodyContentLines ev env typeName bodys
                  (assign (arrayPrototypeKeys (engine env)) result property v) st1))
      | ObjectStructureLine exp \<Rightarrow>
          andThen (evalExpression ev env exp st)
            (\<lambda>propertyObject st1.
               case mergeObject env typeName propertyObject result of
                 Inl e \<Rightarrow> throw e st1
               | Inr merged \<Rightarrow> structuredBodyContentLines ev env typeName bodys merged st1))"

definition visitStructuredTemplateBody ::
  "(string \<Rightarrow> scopeArg \<Rightarrow> evalState \<Rightarrow> val result) \<Rightarrow> Evaluator \<Rightarrow> string \<Rightarrow>
   structuredBodyContentLine list \<Rightarrow> evalState \<Rightarrow> val result" where
  "visitStructuredTemplateBody ev env typeName bodys st =
     andThen (structuredBodyContentLines ev env typeName bodys (None, [(LGType, VStr typeName)]) st)
       (\<lambda>result st1. return (toObject result) st1)"

definition visit ::
  "(string \<Rightarrow> scopeArg \<Rightarrow> evalState \<Rightarrow> val result) \<Rightarrow> Evaluator \<Rightarrow> templateBody \<Rightarrow>
   evalState \<Rightarrow> val result" where
  "visit ev env tree st =
     (case tree of
        NormalBody normalBody \<Rightarrow> visitNormalTemplateBody ev env normalBody st
      | IfElseBody ifRules \<Rightarrow> visitIfElseBody ev env ifRules st
      | SwitchCaseBody switchcaseNodes \<Rightarrow> visitSwitchCaseBody ev env switchcaseNodes st
      | StructuredTemplateBody typeName bodys \<Rightarrow>
          visitStructuredTemplateBody ev env typeName bodys st)"

text \<open>
  \<open>evaluateTemplate\<close>. The recursion through the expressions of the body is bounded by
  fuel: each nested template evaluation runs with one unit less, and \<open>None\<close> is returned
  when none is left. \<open>Array.prototype.reverse\<close> reverses the array it is called on, so
  the loop check leaves the stack reversed.
\<close>

definition lineBreak :: "Evaluator \<Rightarrow> val \<Rightarrow> val" where
  "lineBreak env result =
     (case result of
        VStr s \<Rightarrow>
          if LineBreakStyle (lgOptions env) = Markdown then VStr (replaceNewLine s) else result
      | _ \<Rightarrow> result)"

fun evaluateTemplate ::
  "nat \<Rightarrow> Evaluator \<Rightarrow> string \<Rightarrow> scopeArg \<Rightarrow> evalState \<Rightarrow> val result" where
  "evaluateTemplate 0 env inputTemplateName scope0 st = None"
| "evaluateTemplate (Suc fuel) env inputTemplateName scope0 st =
     (case parseTemplateName inputTemplateName of
        Inl e \<Rightarrow> throw e st
      | Inr (reExecute, pureTemplateName) \<Rightarrow>
          if \<not> inTemplateMap env pureTemplateName
          then throw (TemplateNotExist pureTemplateName) st
          else if list_ex (\<lambda>u. templateName u = pureTemplateName) (stackTargets st)
          then throw (LoopDetected (map templateName (rev (stackTargets st))))
                 (st\<lparr>evaluationTargetStack := rev (evaluationTargetStack st)\<rparr>)
          else
            (let memory = wrapScope scope0;
                 templateTarget = \<lparr>templateName = pureTemplateName, scope = memory,
                                   evaluatedChildren = []\<rparr>;
                 currentEvulateId = getId env pureTemplateName memory;
                 previousEvaluateTarget =
                   (case evaluationTargetStack st of
                      [] \<Rightarrow> None
                    | a # as \<Rightarrow> Some (last (a # as)));
                 cached =
                   (case previousEvaluateTarget of
                      None \<Rightarrow> None
                    | Some previous \<Rightarrow>
                        if \<not> reExecute
                        then map_of (evaluatedChildren (frames st ! previous)) currentEvulateId
                        else None)
             in case cached of
                  Some v \<Rightarrow> return v st
                | None \<Rightarrow>
                    (case templateMap env pureTemplateName of
                       None \<Rightarrow> throw TypeError (push templateTarget st)
                     | Some template \<Rightarrow>
                         andThen
                           (visit (evaluateTemplate fuel env) env
                              (templateBodyParseTree template) (push templateTarget st))
                           (\<lambda>result st1.
                              let st2 =
                                    (case previousEvaluateTarget of
                                       Some previous \<Rightarrow>
                                         setEvaluatedChild previous currentEvulateId result st1
                                     | None \<Rightarrow> st1)
                              in return (lineBreak env result) (pop st2)))))"

declare evaluateTemplate.simps [simp del]

section \<open>The template collection\<close>

datatype TemplateImport = TemplateImport string string

text \<open>
  The class Templates, with the fields the operations below read and write; the
  expression parser and the import resolver are handles to outside code and are left
  out. \<open>references\<close> lists every collection reachable through imports.
\<close>

datatype Templates =
  Templates
    (items: "Template list")
    (templateImports: "TemplateImport list")
    (diagnostics: "Diagnostic list")
    (references: "Templates list")
    (content: string)
    (templatesId: string)
    (options: "string list")

text \<open>
  What the collection takes from outside these sources: the parser
  (\<open>TemplatesParser.parseText\<close>, by content and id), \<open>TemplateExtensions.readLine\<close>, the
  class EvaluationOptions (its constructor from option lines and \<open>merge\<close>), the classes
  Expander and Analyzer, and the parameters of the evaluator.
\<close>

record Host =
  parseText :: "string \<Rightarrow> string \<Rightarrow> Templates"
  readLine :: "string \<Rightarrow> string list"
  newEvaluationOptions :: "string list \<Rightarrow> EvaluationOptions"
  merge :: "EvaluationOptions \<Rightarrow> EvaluationOptions \<Rightarrow> EvaluationOptions"
  expander :: "Template list \<Rightarrow> EvaluationOptions \<Rightarrow> string \<Rightarrow> scopeArg \<Rightarrow> error + val list"
  analyzer :: "Template list \<Rightarrow> string \<Rightarrow> error + (string list \<times> string list)"
  hostEngine :: Engine
  hostLibrary :: ExpressionLibrary
  hostBaseLookup :: "string \<Rightarrow> (val list \<Rightarrow> error + val) option"
  hostEvalEscape :: "string \<Rightarrow> string"
  hostJsonStringify :: "val \<Rightarrow> string"
  hostMathRandom :: "nat \<Rightarrow> nat"
  hostGetId :: "string \<Rightarrow> CustomizedMemory \<Rightarrow> string"

definition newLine :: string where
  "newLine = [CR, LF]"

text \<open>
  \<open>Array.from(new Set(result))\<close> keeps the first occurrence of each element. (The set
  compares objects by identity; the model compares them by value.)
\<close>

definition fromSet :: "'a list \<Rightarrow> 'a list" where
  "fromSet xs = rev (remdups (rev xs))"

definition allTemplates :: "Templates \<Rightarrow> Template list" where
  "allTemplates ts = fromSet (foldl (\<lambda>result ref. result @ items ref) (items ts) (references ts))"

definition allDiagnostics :: "Templates \<Rightarrow> Diagnostic list" where
  "allDiagnostics ts =
     fromSet (foldl (\<lambda>result ref. result @ diagnostics ref) (diagnostics ts) (references ts))"

definition checkErrors :: "Templates \<Rightarrow> error option" where
  "checkErrors ts =
     (let errors = filter (\<lambda>u. severity u = Error) (allDiagnostics ts)
      in if errors \<noteq> [] then Some (DiagnosticErrors errors) else None)"

definition evalOptions :: "Host \<Rightarrow> Templates \<Rightarrow> EvaluationOptions option \<Rightarrow> EvaluationOptions" where
  "evalOptions host ts opt =
     (case opt of
        Some given \<Rightarrow> merge host given (newEvaluationOptions host (options ts))
      | None \<Rightarrow> newEvaluationOptions host (options ts))"

definition newEvaluator :: "Host \<Rightarrow> Template list \<Rightarrow> EvaluationOptions \<Rightarrow> Evaluator" where
  "newEvaluator host ts opt =
     \<lparr>templates = ts, lgOptions = opt, engine = hostEngine host,
      library = hostLibrary host, baseLookup = hostBaseLookup host,
      evalEscape = hostEvalEscape host, jsonStringify = hostJsonStringify host,
      mathRandom = hostMathRandom host, getId = hostGetId host\<rparr>"

text \<open>
  \<open>Templates.evaluate\<close>: the pre-flight check, a fresh evaluator over all the templates,
  the evaluation, and the line-break replacement on a string result. The evaluator is
  dropped with the call, so only the thrown error or the value is returned.
\<close>

definition evaluate ::
  "nat \<Rightarrow> Host \<Rightarrow> Templates \<Rightarrow> string \<Rightarrow> scopeArg \<Rightarrow> EvaluationOptions option \<Rightarrow>
   (error + val) option" where
  "evaluate fuel host ts inputTemplateName scope0 opt =
     (case checkErrors ts of
        Some e \<Rightarrow> Some (Inl e)
      | None \<Rightarrow>
          (let evalOpt = evalOptions host ts opt;
               evaluator = newEvaluator host (allTemplates ts) evalOpt
           in case evaluateTemplate fuel evaluator inputTemplateName scope0 initialState of
                None \<Rightarrow> None
              | Some (Inl e, st) \<Rightarrow> Some (Inl e)
              | Some (Inr result, st) \<Rightarrow>
                  Some (Inr (case result of
                               VStr s \<Rightarrow>
                                 if LineBreakStyle evalOpt = Markdown
                                 then VStr (replaceNewLine s) else result
                             | _ \<Rightarrow> result))))"

definition expandTemplate ::
  "Host \<Rightarrow> Templates \<Rightarrow> string \<Rightarrow> scopeArg \<Rightarrow> EvaluationOptions option \<Rightarrow> error + val list" where
  "expandTemplate host ts inputTemplateName scope0 opt =
     (case checkErrors ts of
        Some e \<Rightarrow> Inl e
      | None \<Rightarrow>
          expander host (allTemplates ts) (evalOptions host ts opt) inputTemplateName scope0)"

definition analyzeTemplate ::
  "Host \<Rightarrow> Templates \<Rightarrow> string \<Rightarrow> error + (string list \<times> string list)" where
  "analyzeTemplate host ts inputTemplateName =
     (case checkErrors ts of
        Some e \<Rightarrow> Inl e
      | None \<Rightarrow> analyzer host (allTemplates ts) inputTemplateName)"

text \<open>
  \<open>globalTemplateFunction\<close>, the function registered for an exported template: a fresh
  evaluator, whose stack is empty, builds the scope and evaluates the template.
\<close>

definition globalTemplateFunction ::
  "nat \<Rightarrow> Host \<Rightarrow> Templates \<Rightarrow> string \<Rightarrow> val list \<Rightarrow> (error + val) option" where
  "globalTemplateFunction fuel host this tName args =
     (let evaluator = newEvaluator host (allTemplates this) (newEvaluationOptions host (options this))
      in case constructScope evaluator tName args initialState of
           Inl e \<Rightarrow> Some (Inl e)
         | Inr newScope \<Rightarrow>
             (case evaluateTemplate fuel evaluator tName (MemoryScope newScope) initialState of
                None \<Rightarrow> None
              | Some (Inl e, st) \<Rightarrow> Some (Inl e)
              | Some (Inr result, st) \<Rightarrow> Some (Inr result)))"

subsection \<open>Editing\<close>

definition replaceRangeContent ::
  "Host \<Rightarrow> string \<Rightarrow> int \<Rightarrow> int \<Rightarrow> string option \<Rightarrow> error + string" where
  "replaceRangeContent host originString startLn stopLn replaceString =
     (let originList = readLine host originString in
      if startLn < 0 \<or> startLn > stopLn \<or> stopLn \<ge> int (length originList)
      then Inl IndexOutOfRange
      else Inr (joinWith newLine
                  (take (nat startLn) originList
                   @ [case replaceString of Some r \<Rightarrow> r | None \<Rightarrow> [] ]
                   @ drop (nat (stopLn + 1)) originList)))"

definition convertTemplateBody :: "Host \<Rightarrow> string \<Rightarrow> string" where
  "convertTemplateBody host templateBody =
     (if templateBody = [] then []
      else joinWith newLine
             (map (\<lambda>u. if startsWith (trimLeft u) ''#'' then ''- '' @ trimLeft u else u)
                (readLine host templateBody)))"

definition buildTemplateNameLine :: "string \<Rightarrow> string list option \<Rightarrow> string" where
  "buildTemplateNameLine tName params =
     (case params of
        None \<Rightarrow> ''# '' @ tName
      | Some ps \<Rightarrow> ''# '' @ tName @ ''('' @ joinWith '', '' ps @ '')'')"

definition initialize :: "Templates \<Rightarrow> Templates \<Rightarrow> Templates" where
  "initialize this parsed =
     Templates (items parsed) (templateImports parsed) (diagnostics parsed) (references parsed)
       (content parsed) (templatesId parsed) (options parsed)"

text \<open>
  The editing operations change the collection in place and return it: the model
  returns the thrown error, if any, and the collection as the call leaves it.
\<close>

definition updateTemplate ::
  "Host \<Rightarrow> Templates \<Rightarrow> string \<Rightarrow> string \<Rightarrow> string list option \<Rightarrow> string \<Rightarrow>
   error option \<times> Templates" where
  "updateTemplate host this tName newTemplateName params templateBody =
     (case find (\<lambda>u. name u = tName) (items this) of
        None \<Rightarrow> (None, this)
      | Some template \<Rightarrow>
          (let templateNameLine = buildTemplateNameLine newTemplateName params;
               newTemplateBody = convertTemplateBody host templateBody;
               newText = templateNameLine @ newLine @ newTemplateBody;
               startLn = startLine (sourceRange template) - 1;
               stopLn = endLine (sourceRange template) - 1
           in case replaceRangeContent host (content this) startLn stopLn (Some newText) of
                Inl e \<Rightarrow> (Some e, this)
              | Inr newContent \<Rightarrow>
                  (None, initialize this (parseText host newContent (templatesId this)))))"

definition addTemplate ::
  "Host \<Rightarrow> Templates \<Rightarrow> string \<Rightarrow> string list option \<Rightarrow> string \<Rightarrow>
   error option \<times> Templates" where
  "addTemplate host this tName params templateBody =
     (case find (\<lambda>u. name u = tName) (items this) of
        Some template \<Rightarrow> (Some (TemplateExist tName), this)
      | None \<Rightarrow>
          (let templateNameLine = buildTemplateNameLine tName params;
               newTemplateBody = convertTemplateBody host templateBody;
               newContent = content this @ newLine @ templateNameLine @ newLine @ newTemplateBody
           in (None, initialize this (parseText host newContent (templatesId this)))))"

definition deleteTemplate :: "Host \<Rightarrow> Templates \<Rightarrow> string \<Rightarrow> error option \<times> Templates" where
  "deleteTemplate host this tName =
     (case find (\<lambda>u. name u = tName) (items this) of
        None \<Rightarrow> (None, this)
      | Some template \<Rightarrow>
          (let startLn = startLine (sourceRange template) - 1;
               stopLn = endLine (sourceRange template) - 1
           in case replaceRangeContent host (content this) startLn stopLn None of
                Inl e \<Rightarrow> (Some e, this)
              | Inr newContent \<Rightarrow>
                  (None, initialize this (parseText host newContent (templatesId this)))))"


section \<open>Example collections\<close>

text \<open>Concrete evaluators, hosts and templates, on which the theorems below are exercised.\<close>

definition exampleOptions :: EvaluationOptions where
  "exampleOptions = \<lparr>strictMode = False, LineBreakStyle = Default, nullSubstitution = None\<rparr>"

definition markdownOptions :: EvaluationOptions where
  "markdownOptions = \<lparr>strictMode = False, LineBreakStyle = Markdown, nullSubstitution = None\<rparr>"

definition exampleEngine :: Engine where
  "exampleEngine =
     \<lparr>exponentForm = (\<lambda>n. ''1e+21''), arrayPrototypeKeys = [''join'', ''push''],
      arrayToString = (\<lambda>v. Some [])\<rparr>"

definition exampleLibrary :: ExpressionLibrary where
  "exampleLibrary =
     \<lparr>standardValidator = (\<lambda>n children. None),
      validateAtLeastOne = (\<lambda>children. if children = [] then Some (FunctionError ''template'') else None),
      validateUnaryString = (\<lambda>children. None),
      validateAttachmentOrder = (\<lambda>children. None),
      returnsObjectOrString = (\<lambda>e. True)\<rparr>"

definition exampleStringify :: "val \<Rightarrow> string" where
  "exampleStringify v = (case stringOf exampleEngine v of Some s \<Rightarrow> s | None \<Rightarrow> [])"

definition exampleEvaluator :: "Template list \<Rightarrow> EvaluationOptions \<Rightarrow> Evaluator" where
  "exampleEvaluator ts opt =
     \<lparr>templates = ts, lgOptions = opt, engine = exampleEngine, library = exampleLibrary,
      baseLookup = (\<lambda>n. None), evalEscape = (\<lambda>s. s),
      jsonStringify = exampleStringify, mathRandom = (\<lambda>k. 0), getId = (\<lambda>n m. n)\<rparr>"

definition exampleTemplate :: "string \<Rightarrow> string list \<Rightarrow> templateBody \<Rightarrow> Template" where
  "exampleTemplate n ps body =
     \<lparr>name = n, parameters = ps, templateBodyParseTree = body,
      sourceRange = \<lparr>startLine = 1, endLine = 2, source = ''example.lg''\<rparr>\<rparr>"

definition exampleHost :: "EvaluationOptions \<Rightarrow> Host" where
  "exampleHost opt =
     \<lparr>parseText = (\<lambda>text ident. Templates [] [] [] [] text ident []),
      readLine = (\<lambda>text. [text]),
      newEvaluationOptions = (\<lambda>lines. opt),
      merge = (\<lambda>given own. given),
      expander = (\<lambda>ts opt n sc. Inr []),
      analyzer = (\<lambda>ts n. Inr ([], [])),
      hostEngine = exampleEngine, hostLibrary = exampleLibrary,
      hostBaseLookup = (\<lambda>n. None), hostEvalEscape = (\<lambda>s. s),
      hostJsonStringify = exampleStringify,
      hostMathRandom = (\<lambda>k. 0), hostGetId = (\<lambda>n m. n)\<rparr>"

text \<open>A collection with the one template \<open># greet\<close>, \<open>- hi\<close>.\<close>

definition greetTemplates :: "Template list" where
  "greetTemplates = [exampleTemplate ''greet'' [] (NormalBody [ [DASH, TEXT ''hi''] ])]"

definition greetCollection :: Templates where
  "greetCollection = Templates greetTemplates [] [] [] ''# greet'' ''example.lg'' []"

text \<open>
  A collection that is clean itself (one warning) and imports a file whose parse left
  an error.
\<close>

definition brokenImport :: Templates where
  "brokenImport =
     Templates [] []
       [\<lparr>severity = Error, rangeStart = 1, rangeEnd = 1, message = ''duplicate''\<rparr>]
       [] ''# a'' ''import.lg'' []"

definition importingCollection :: Templates where
  "importingCollection =
     Templates greetTemplates [TemplateImport ''x'' ''import.lg'']
       [\<lparr>severity = Warning, rangeStart = 1, rangeEnd = 1, message = ''w''\<rparr>]
       [brokenImport] ''# greet'' ''example.lg'' []"

text \<open>
  Two templates that call each other: \<open># wPhrase\<close>, \<open>- ${welcome()} ${name}\<close> and
  \<open># welcome\<close>, \<open>- ${wPhrase()}\<close>. When \<open>wPhrase\<close> is evaluated from an empty stack,
  \<open>loopState\<close> is the state in which \<open>welcome\<close> calls \<open>wPhrase\<close> again, and \<open>welcomeEntry\<close>
  the state in which \<open>wPhrase\<close> calls \<open>welcome\<close>.
\<close>

definition loopTemplates :: "Template list" where
  "loopTemplates =
     [exampleTemplate ''wPhrase'' []
        (NormalBody [ [DASH, EXPRESSION (Call ''welcome'' []), TEXT '' '',
                      EXPRESSION (Accessor ''name'')] ]),
      exampleTemplate ''welcome'' [] (NormalBody [ [DASH, EXPRESSION (Call ''wPhrase'' [])] ])]"

definition emptyMemory :: CustomizedMemory where
  "emptyMemory = \<lparr>globalMemory = Some (VObj []), localMemory = None\<rparr>"

definition loopState :: evalState where
  "loopState =
     \<lparr>frames = [\<lparr>templateName = ''wPhrase'', scope = emptyMemory, evaluatedChildren = []\<rparr>,
                \<lparr>templateName = ''welcome'', scope = emptyMemory, evaluatedChildren = []\<rparr>],
      evaluationTargetStack = [0, 1], randoms = 2\<rparr>"

definition welcomeEntry :: evalState where
  "welcomeEntry =
     \<lparr>frames = [\<lparr>templateName = ''wPhrase'', scope = emptyMemory, evaluatedChildren = []\<rparr>],
      evaluationTargetStack = [0], randoms = 1\<rparr>"

text \<open>A template whose one candidate is the two-line text \<open>a\<close>, \<open>b\<close>.\<close>

definition multilineTemplates :: "Template list" where
  "multilineTemplates =
     [exampleTemplate ''note'' [] (NormalBody [ [DASH, TEXT [CHR ''a'', LF, CHR ''b''] ] ])]"

definition multilineCollection :: Templates where
  "multilineCollection = Templates multilineTemplates [] [] [] ''# note'' ''example.lg'' []"

text \<open>A caller frame with a global and a local layer, and a template with one parameter.\<close>

definition callerMemory :: CustomizedMemory where
  "callerMemory =
     \<lparr>globalMemory = Some (VObj [(''city'', VStr ''Oslo'')]),
      localMemory = Some (VObj [(''secret'', VStr ''x''), (''who'', VStr ''caller'')])\<rparr>"

definition callerState :: evalState where
  "callerState =
     \<lparr>frames = [\<lparr>templateName = ''main'', scope = callerMemory, evaluatedChildren = []\<rparr>],
      evaluationTargetStack = [0], randoms = 0\<rparr>"

definition callTemplates :: "Template list" where
  "callTemplates =
     [exampleTemplate ''main'' [] (NormalBody [ [DASH, EXPRESSION (Call ''hello'' [Constant (VStr ''Ana'')])] ]),
      exampleTemplate ''hello'' [''who''] (NormalBody [ [DASH, TEXT ''Hello, '', EXPRESSION (Accessor ''who''), TEXT '' '', EXPRESSION (Accessor ''secret''), TEXT '' '', EXPRESSION (Accessor ''city'')] ])]"

text \<open>
  Structured templates of type \<open>Card\<close>: \<open>base\<close> sets \<open>title\<close> and \<open>Speak\<close>; \<open>card\<close> sets
  \<open>Title\<close>, then refers to \<open>base\<close>; \<open>cardOnce\<close> has one line for \<open>Title\<close>, \<open>cardTwice\<close> a
  second line for \<open>title\<close> after it.
\<close>

definition baseLines :: "structuredBodyContentLine list" where
  "baseLines =
     [KeyValueStructureLine ''title'' [StructureNodes [STRUCTURE_TEXT ''zero''] ],
      KeyValueStructureLine ''Speak'' [StructureNodes [STRUCTURE_TEXT ''aloud''] ] ]"

definition titleOne :: structuredBodyContentLine where
  "titleOne = KeyValueStructureLine ''Title'' [StructureNodes [STRUCTURE_TEXT ''one''] ]"

definition titleTwo :: structuredBodyContentLine where
  "titleTwo = KeyValueStructureLine ''title'' [StructureNodes [STRUCTURE_TEXT ''two''] ]"

definition cardTemplates :: "Template list" where
  "cardTemplates =
     [exampleTemplate ''base'' [] (StructuredTemplateBody ''Card'' baseLines),
      exampleTemplate ''card'' []
        (StructuredTemplateBody ''Card'' [titleOne, ObjectStructureLine (Call ''base'' [])]),
      exampleTemplate ''cardOnce'' [] (StructuredTemplateBody ''Card'' [titleOne]),
      exampleTemplate ''cardTwice'' [] (StructuredTemplateBody ''Card'' [titleOne, titleTwo])]"

definition cardState :: evalState where
  "cardState =
     \<lparr>frames = [\<lparr>templateName = ''card'', scope = \<lparr>globalMemory = None, localMemory = None\<rparr>,
                  evaluatedChildren = []\<rparr>],
      evaluationTargetStack = [0], randoms = 0\<rparr>"

definition cardStateAfter :: evalState where
  "cardStateAfter =
     \<lparr>frames = [\<lparr>templateName = ''card'', scope = \<lparr>globalMemory = None, localMemory = None\<rparr>,
                  evaluatedChildren =
                    [(''base'', VObj [(''lgType'', VStr ''Card''), (''title'', VStr ''zero''),
                                      (''speak'', VStr ''aloud'')])]\<rparr>,
                \<lparr>templateName = ''base'', scope = \<lparr>globalMemory = None, localMemory = None\<rparr>,
                  evaluatedChildren = []\<rparr>],
      evaluationTargetStack = [0], randoms = 0\<rparr>"

text \<open>
  A structured template of type \<open>Card\<close> with the lines \<open>__proto__ = x\<close> and \<open>b = y\<close>.
\<close>

definition protoTemplates :: "Template list" where
  "protoTemplates =
     [exampleTemplate ''protoCard'' []
        (StructuredTemplateBody ''Card''
           [KeyValueStructureLine ''__proto__'' [StructureNodes [STRUCTURE_TEXT ''x''] ],
            KeyValueStructureLine ''b'' [StructureNodes [STRUCTURE_TEXT ''y''] ] ])]"

text \<open>
  A structured template of type \<open>Card\<close> with the line \<open>__proto__ = ${n}\<close> and the object
  line \<open>${obj}\<close>, for a scope in which \<open>n\<close> is null and \<open>obj\<close> an object of type \<open>Card\<close>
  with the key \<open>toString\<close>.
\<close>

definition nullProtoTemplates :: "Template list" where
  "nullProtoTemplates =
     [exampleTemplate ''bare'' []
        (StructuredTemplateBody ''Card''
           [KeyValueStructureLine ''__proto__'' [PureExpression (Accessor ''n'')],
            ObjectStructureLine (Accessor ''obj'')])]"

definition nullProtoScope :: scopeArg where
  "nullProtoScope =
     PlainScope (VObj [(''n'', VNull),
                       (''obj'', VObj [(''lgType'', VStr ''Card''), (''toString'', VStr ''x'')])])"

text \<open>
  Three templates in which a cycle is met inside a condition:
  \<open># A\<close>, \<open>- IF: ${B('x')}\<close>, \<open>- yes\<close>, \<open>- ELSE:\<close>, \<open>- ${C()}\<close>;
  \<open># B(p)\<close>, \<open>- ${A()}\<close>; \<open># C\<close>, \<open>- ${p}\<close>; and \<open># direct\<close>, \<open>- ${C()}\<close>, which calls \<open>C\<close>
  with no cycle before it. The scope of the evaluation binds \<open>p\<close> to \<open>outer\<close>.
\<close>

definition scopeTemplates :: "Template list" where
  "scopeTemplates =
     [exampleTemplate ''A'' []
        (IfElseBody
           [IfConditionRule (Some (Call ''B'' [Constant (VStr ''x'')])) (Some [ [DASH, TEXT ''yes''] ]),
            IfConditionRule None (Some [ [DASH, EXPRESSION (Call ''C'' [])] ])]),
      exampleTemplate ''B'' [''p''] (NormalBody [ [DASH, EXPRESSION (Call ''A'' [])] ]),
      exampleTemplate ''C'' [] (NormalBody [ [DASH, EXPRESSION (Accessor ''p'')] ]),
      exampleTemplate ''direct'' [] (NormalBody [ [DASH, EXPRESSION (Call ''C'' [])] ])]"

definition outerScope :: scopeArg where
  "outerScope = PlainScope (VObj [(''p'', VStr ''outer'')])"

definition scopeCollection :: Templates where
  "scopeCollection = Templates scopeTemplates [] [] [] ''# A'' ''example.lg'' [''@exports = C'']"

text \<open>
  Three templates in which a cycle is met in the second argument of a call:
  \<open># A\<close>, \<open>- IF: ${concat(C(), B())}\<close>, \<open>- yes\<close>, \<open>- ELSE:\<close>, \<open>- ${C()}\<close>;
  \<open># B\<close>, \<open>- ${A()}\<close>; \<open># C\<close> with the two candidates \<open>- a\<close> and \<open>- b\<close>. The evaluator has the
  standard function \<open>concat\<close>, the k-th random draw picks the candidate of index k modulo
  the number of candidates, and the fingerprint of a call is the template's name.
\<close>

definition concatFunction :: "val list \<Rightarrow> error + val" where
  "concatFunction args =
     Inr (VStr (concat (map (\<lambda>v. case v of VStr s \<Rightarrow> s | _ \<Rightarrow> []) args)))"

definition memoTemplates :: "Template list" where
  "memoTemplates =
     [exampleTemplate ''A'' []
        (IfElseBody
           [IfConditionRule (Some (Call ''concat'' [Call ''C'' [], Call ''B'' [] ]))
              (Some [ [DASH, TEXT ''yes''] ]),
            IfConditionRule None (Some [ [DASH, EXPRESSION (Call ''C'' [])] ])]),
      exampleTemplate ''B'' [] (NormalBody [ [DASH, EXPRESSION (Call ''A'' [])] ]),
      exampleTemplate ''C'' [] (NormalBody [ [DASH, TEXT ''a''], [DASH, TEXT ''b''] ])]"

definition memoEvaluator :: Evaluator where
  "memoEvaluator =
     (exampleEvaluator memoTemplates exampleOptions)
       \<lparr>baseLookup := (\<lambda>n. if n = ''concat'' then Some concatFunction else None),
        mathRandom := (\<lambda>k. k)\<rparr>"

definition memoFinalState :: evalState where
  "memoFinalState =
     \<lparr>frames =
        [\<lparr>templateName = ''A'', scope = emptyMemory, evaluatedChildren = [(''C'', VStr ''a'')]\<rparr>,
         \<lparr>templateName = ''C'', scope = emptyMemory, evaluatedChildren = []\<rparr>,
         \<lparr>templateName = ''B'', scope = emptyMemory, evaluatedChildren = [(''C'', VStr ''b'')]\<rparr>,
         \<lparr>templateName = ''C'', scope = emptyMemory, evaluatedChildren = []\<rparr>],
      evaluationTargetStack = [], randoms = 4\<rparr>"

section \<open>The switch, as specified\<close>


text \<open>
  The switch as the specification words it: the switch expression has been evaluated
  once, to the string \<open>switchExprResult\<close>; the cases are taken in source order, each case
  expression is evaluated to a string, and the first case with an equal string has its
  body evaluated; a DEFAULT case counts only as the last case, reached when no case
  before it matched; with no match and no default the result is undefined. Where the
  specification is silent (a case without expression or body, a value with no string
  form) the error of the source is kept.
\<close>

fun switchCasesSpec ::
  "(string \<Rightarrow> scopeArg \<Rightarrow> evalState \<Rightarrow> val result) \<Rightarrow> Evaluator \<Rightarrow> string \<Rightarrow>
   switchCaseRule list \<Rightarrow> evalState \<Rightarrow> val result" where
  "switchCasesSpec ev env switchExprResult [] st = return VUndefined st"
| "switchCasesSpec ev env switchExprResult (SwitchCaseRule stat caseExprs body # later) st =
     (if stat = DEFAULT \<and> later = [] then
        (case body of
           Some defaultBody \<Rightarrow> visitNormalTemplateBody ev env defaultBody st
         | None \<Rightarrow> return VUndefined st)
      else
        (case caseExprs of
           [] \<Rightarrow> throw TypeError st
         | caseExpr # others \<Rightarrow>
             andThen (evalExpression ev env caseExpr st)
               (\<lambda>v st1.
                  case toStringMethod (engine env) v of
                    None \<Rightarrow> throw TypeError st1
                  | Some caseExprResult \<Rightarrow>
                      if caseExprResult = switchExprResult then
                        (case body of
                           Some caseBody \<Rightarrow> visitNormalTemplateBody ev env caseBody st1
                         | None \<Rightarrow> throw TypeError st1)
                      else switchCasesSpec ev env switchExprResult later st1)))"

definition visitSwitchCaseBodySpec ::
  "(string \<Rightarrow> scopeArg \<Rightarrow> evalState \<Rightarrow> val result) \<Rightarrow> Evaluator \<Rightarrow> switchCaseRule list \<Rightarrow>
   evalState \<Rightarrow> val result" where
  "visitSwitchCaseBodySpec ev env switchcaseNodes st =
     (case switchcaseNodes of
        [] \<Rightarrow> throw TypeError st
      | SwitchCaseRule stat switchExprs body # cases \<Rightarrow>
          (case switchExprs of
             [] \<Rightarrow> throw TypeError st
           | switchExpr # others \<Rightarrow>
               andThen (evalExpression ev env switchExpr st)
                 (\<lambda>v st1.
                    case toStringMethod (engine env) v of
                      None \<Rightarrow> throw TypeError st1
                    | Some switchExprResult \<Rightarrow>
                        switchCasesSpec ev env switchExprResult cases st1)))"

text \<open>
  A switch on the variable \<open>day\<close>: \<open>CASE: ${'sat'}\<close>, \<open>CASE: ${'sun'}\<close>, \<open>DEFAULT:\<close>.
\<close>

definition dayNodes :: "switchCaseRule list" where
  "dayNodes =
     [SwitchCaseRule SWITCH [Accessor ''day''] None,
      SwitchCaseRule CASE [Constant (VStr ''sat'')] (Some [ [DASH, TEXT ''first''] ]),
      SwitchCaseRule CASE [Constant (VStr ''sun'')] (Some [ [DASH, TEXT ''second''] ]),
      SwitchCaseRule DEFAULT [] (Some [ [DASH, TEXT ''weekday''] ])]"

definition dayState :: "string \<Rightarrow> evalState" where
  "dayState d =
     \<lparr>frames = [\<lparr>templateName = ''day'',
                  scope = \<lparr>globalMemory = Some (VObj [(''day'', VStr d)]), localMemory = None\<rparr>,
                  evaluatedChildren = []\<rparr>],
      evaluationTargetStack = [0], randoms = 0\<rparr>"

section \<open>The store of frames only grows\<close>

text \<open>
  An outcome keeps \<open>n\<close> frames when the state it leaves has at least \<open>n\<close> frames in its
  store; a template evaluation \<open>ev\<close> keeps frames when it does so from every state.
\<close>

definition framesKept :: "nat \<Rightarrow> ('a \<times> evalState) option \<Rightarrow> bool" where
  "framesKept n r = (case r of None \<Rightarrow> True | Some (x, st') \<Rightarrow> n \<le> length (frames st'))"

definition keepsFrames :: "(string \<Rightarrow> scopeArg \<Rightarrow> evalState \<Rightarrow> val result) \<Rightarrow> bool" where
  "keepsFrames ev = (\<forall>n tName sc st. n \<le> length (frames st) \<longrightarrow> framesKept n (ev tName sc st))"


text \<open>
  A state in which the frame of \<open>card\<close> is current and already holds a remembered result
  for the sub-call \<open>base\<close>.
\<close>

definition memoState :: evalState where
  "memoState =
     \<lparr>frames = [\<lparr>templateName = ''card'', scope = \<lparr>globalMemory = None, localMemory = None\<rparr>,
                  evaluatedChildren = [(''base'', VStr ''remembered'')]\<rparr>],
      evaluationTargetStack = [0], randoms = 0\<rparr>"

definition baseObject :: val where
  "baseObject =
     VObj [(''lgType'', VStr ''Card''), (''title'', VStr ''zero''), (''speak'', VStr ''aloud'')]"

definition memoStateAfter :: evalState where
  "memoStateAfter =
     \<lparr>frames = [\<lparr>templateName = ''card'', scope = \<lparr>globalMemory = None, localMemory = None\<rparr>,
                  evaluatedChildren = [(''base'', baseObject)]\<rparr>,
                \<lparr>templateName = ''base'', scope = \<lparr>globalMemory = None, localMemory = None\<rparr>,
                  evaluatedChildren = []\<rparr>],
      evaluationTargetStack = [0], randoms = 0\<rparr>"

section \<open>Editing a collection\<close>

lemma find_None_name: "find (\<lambda>u. name u = n) xs = None \<longleftrightarrow> n \<notin> name ` set xs"
  by (induction xs) auto

text \<open>
  Claim C8. When no template of the collection is named \<open>n\<close>, \<open>updateTemplate\<close> and
  \<open>deleteTemplate\<close> throw nothing and leave the collection as it was; when a template is
  named \<open>n\<close>, \<open>addTemplate\<close> throws the template-exists error and leaves the collection as
  it was.
\<close>

theorem edit_missing_or_duplicate:
  "(n \<notin> name ` set (items ts) \<longrightarrow>
      updateTemplate host ts n newName params body = (None, ts) \<and>
      deleteTemplate host ts n = (None, ts)) \<and>
   (n \<in> name ` set (items ts) \<longrightarrow>
      addTemplate host ts n params body = (Some (TemplateExist n), ts))"
proof (intro conjI impI)
  assume "n \<notin> name ` set (items ts)"
  then have none: "find (\<lambda>u. name u = n) (items ts) = None"
    by (simp add: find_None_name)
  show "updateTemplate host ts n newName params body = (None, ts)"
    by (simp add: updateTemplate_def none)
  show "deleteTemplate host ts n = (None, ts)"
    by (simp add: deleteTemplate_def none)
next
  assume "n \<in> name ` set (items ts)"
  then have "find (\<lambda>u. name u = n) (items ts) \<noteq> None"
    by (simp add: find_None_name)
  then obtain t where "find (\<lambda>u. name u = n) (items ts) = Some t"
    by auto
  then show "addTemplate host ts n params body = (Some (TemplateExist n), ts)"
    by (simp add: addTemplate_def)
qed

theorem edit_missing_or_duplicate_witness:
  "''bye'' \<notin> name ` set (items greetCollection) \<and>
   ''greet'' \<in> name ` set (items greetCollection) \<and>
   updateTemplate (exampleHost exampleOptions) greetCollection ''bye'' ''later'' None ''- bye''
     = (None, greetCollection) \<and>
   deleteTemplate (exampleHost exampleOptions) greetCollection ''bye'' = (None, greetCollection) \<and>
   addTemplate (exampleHost exampleOptions) greetCollection ''greet'' None ''- hello''
     = (Some (TemplateExist ''greet''), greetCollection)"
proof -
  have a: "''bye'' \<notin> name ` set (items greetCollection)"
    by (simp add: greetCollection_def greetTemplates_def exampleTemplate_def)
  have b: "''greet'' \<in> name ` set (items greetCollection)"
    by (simp add: greetCollection_def greetTemplates_def exampleTemplate_def)
  from a b
    edit_missing_or_duplicate [of "''bye''" greetCollection "exampleHost exampleOptions"
      "''later''" None "''- bye''"]
    edit_missing_or_duplicate [of "''greet''" greetCollection "exampleHost exampleOptions"
      "''later''" None "''- hello''"]
  show ?thesis by simp
qed

section \<open>The pre-flight check\<close>

lemma set_fromSet: "set (fromSet xs) = set xs"
  by (simp add: fromSet_def)

lemma set_foldl_append:
  "set (foldl (\<lambda>result ref. result @ f ref) init refs) = set init \<union> (\<Union>r \<in> set refs. set (f r))"
  by (induction refs arbitrary: init) auto

lemma set_allDiagnostics:
  "set (allDiagnostics ts) =
     set (diagnostics ts) \<union> (\<Union>r \<in> set (references ts). set (diagnostics r))"
  by (simp add: allDiagnostics_def set_fromSet set_foldl_append)

lemma checkErrors_Some:
  assumes "severity d = Error" and "d \<in> set (allDiagnostics ts)"
  shows "\<exists>ds. ds \<noteq> [] \<and> checkErrors ts = Some (DiagnosticErrors ds)"
proof -
  from assms have "d \<in> set (filter (\<lambda>u. severity u = Error) (allDiagnostics ts))"
    by simp
  then have "filter (\<lambda>u. severity u = Error) (allDiagnostics ts) \<noteq> []"
    by (metis empty_iff empty_set)
  then show ?thesis
    by (simp add: checkErrors_def Let_def)
qed

lemma checkErrors_None:
  assumes "\<And>d. d \<in> set (allDiagnostics ts) \<Longrightarrow> severity d \<noteq> Error"
  shows "checkErrors ts = None"
proof -
  from assms have "filter (\<lambda>u. severity u = Error) (allDiagnostics ts) = []"
    by (simp add: filter_empty_conv)
  then show ?thesis
    by (simp add: checkErrors_def)
qed

text \<open>
  Claim C9. When the diagnostics of the collection or of one of its references hold a
  diagnostic of severity Error, \<open>evaluate\<close>, \<open>expandTemplate\<close> and \<open>analyzeTemplate\<close> each
  throw the collected errors, whatever the fuel, the template name and the expander and
  analyzer are: nothing is evaluated. When there is none, the check passes and each
  operation is what its evaluator, expander or analyzer returns over all the templates.
\<close>

theorem preflight_check:
  "((\<exists>d. severity d = Error \<and>
         (d \<in> set (diagnostics ts) \<or>
          (\<exists>ref \<in> set (references ts). d \<in> set (diagnostics ref)))) \<longrightarrow>
      (\<exists>ds. ds \<noteq> [] \<and>
            evaluate fuel host ts n sc opt = Some (Inl (DiagnosticErrors ds)) \<and>
            expandTemplate host ts n sc opt = Inl (DiagnosticErrors ds) \<and>
            analyzeTemplate host ts n = Inl (DiagnosticErrors ds))) \<and>
   (\<not> (\<exists>d. severity d = Error \<and>
         (d \<in> set (diagnostics ts) \<or>
          (\<exists>ref \<in> set (references ts). d \<in> set (diagnostics ref)))) \<longrightarrow>
      checkErrors ts = None \<and>
      evaluate fuel host ts n sc opt =
        (case evaluateTemplate fuel (newEvaluator host (allTemplates ts) (evalOptions host ts opt))
                n sc initialState of
           None \<Rightarrow> None
         | Some (Inl e, st) \<Rightarrow> Some (Inl e)
         | Some (Inr result, st) \<Rightarrow>
             Some (Inr (case result of
                          VStr s \<Rightarrow>
                            if LineBreakStyle (evalOptions host ts opt) = Markdown
                            then VStr (replaceNewLine s) else result
                        | _ \<Rightarrow> result))) \<and>
      expandTemplate host ts n sc opt =
        expander host (allTemplates ts) (evalOptions host ts opt) n sc \<and>
      analyzeTemplate host ts n = analyzer host (allTemplates ts) n)"
proof (intro conjI impI)
  assume "\<exists>d. severity d = Error \<and>
         (d \<in> set (diagnostics ts) \<or>
          (\<exists>ref \<in> set (references ts). d \<in> set (diagnostics ref)))"
  then obtain d where "severity d = Error" and "d \<in> set (allDiagnostics ts)"
    by (auto simp: set_allDiagnostics)
  then obtain ds where "ds \<noteq> []" and "checkErrors ts = Some (DiagnosticErrors ds)"
    using checkErrors_Some by blast
  then show "\<exists>ds. ds \<noteq> [] \<and>
            evaluate fuel host ts n sc opt = Some (Inl (DiagnosticErrors ds)) \<and>
            expandTemplate host ts n sc opt = Inl (DiagnosticErrors ds) \<and>
            analyzeTemplate host ts n = Inl (DiagnosticErrors ds)"
    by (simp add: evaluate_def expandTemplate_def analyzeTemplate_def)
next
  assume no: "\<not> (\<exists>d. severity d = Error \<and>
         (d \<in> set (diagnostics ts) \<or>
          (\<exists>ref \<in> set (references ts). d \<in> set (diagnostics ref))))"
  then have "\<And>d. d \<in> set (allDiagnostics ts) \<Longrightarrow> severity d \<noteq> Error"
    by (auto simp: set_allDiagnostics)
  then have none: "checkErrors ts = None"
    by (rule checkErrors_None)
  show "checkErrors ts = None" by (rule none)
  show "expandTemplate host ts n sc opt =
        expander host (allTemplates ts) (evalOptions host ts opt) n sc"
    by (simp add: expandTemplate_def none)
  show "analyzeTemplate host ts n = analyzer host (allTemplates ts) n"
    by (simp add: analyzeTemplate_def none)
  show "evaluate fuel host ts n sc opt =
        (case evaluateTemplate fuel (newEvaluator host (allTemplates ts) (evalOptions host ts opt))
                n sc initialState of
           None \<Rightarrow> None
         | Some (Inl e, st) \<Rightarrow> Some (Inl e)
         | Some (Inr result, st) \<Rightarrow>
             Some (Inr (case result of
                          VStr s \<Rightarrow>
                            if LineBreakStyle (evalOptions host ts opt) = Markdown
                            then VStr (replaceNewLine s) else result
                        | _ \<Rightarrow> result)))"
    by (simp add: evaluate_def none Let_def)
qed

theorem preflight_check_witness:
  "(\<exists>d. severity d = Error \<and>
        (d \<in> set (diagnostics importingCollection) \<or>
         (\<exists>ref \<in> set (references importingCollection). d \<in> set (diagnostics ref)))) \<and>
   (\<exists>ds. ds \<noteq> [] \<and>
      evaluate 0 (exampleHost exampleOptions) importingCollection ''greet'' (PlainScope VUndefined) None
        = Some (Inl (DiagnosticErrors ds)) \<and>
      expandTemplate (exampleHost exampleOptions) importingCollection ''greet'' (PlainScope VUndefined) None
        = Inl (DiagnosticErrors ds) \<and>
      analyzeTemplate (exampleHost exampleOptions) importingCollection ''greet''
        = Inl (DiagnosticErrors ds)) \<and>
   \<not> (\<exists>d. severity d = Error \<and>
        (d \<in> set (diagnostics greetCollection) \<or>
         (\<exists>ref \<in> set (references greetCollection). d \<in> set (diagnostics ref)))) \<and>
   evaluate 1 (exampleHost exampleOptions) greetCollection ''greet'' (PlainScope VUndefined) None
     = Some (Inr (VStr ''hi''))"
proof -
  have bad: "\<exists>d. severity d = Error \<and>
        (d \<in> set (diagnostics importingCollection) \<or>
         (\<exists>ref \<in> set (references importingCollection). d \<in> set (diagnostics ref)))"
    by (rule exI [of _ "\<lparr>severity = Error, rangeStart = 1, rangeEnd = 1, message = ''duplicate''\<rparr>"])
       (simp add: importingCollection_def brokenImport_def)
  have good: "\<not> (\<exists>d. severity d = Error \<and>
        (d \<in> set (diagnostics greetCollection) \<or>
         (\<exists>ref \<in> set (references greetCollection). d \<in> set (diagnostics ref))))"
    by (simp add: greetCollection_def)
  have run: "evaluateTemplate 1 (newEvaluator (exampleHost exampleOptions) (allTemplates greetCollection)
       (evalOptions (exampleHost exampleOptions) greetCollection None))
     ''greet'' (PlainScope VUndefined) initialState
   = Some (Inr (VStr ''hi''),
       \<lparr>frames = [\<lparr>templateName = ''greet'', scope = \<lparr>globalMemory = None, localMemory = None\<rparr>,
                    evaluatedChildren = []\<rparr>],
        evaluationTargetStack = [], randoms = 1\<rparr>)"
    by code_simp
  from bad preflight_check [of importingCollection 0 "exampleHost exampleOptions" "''greet''"
      "PlainScope VUndefined" None]
  have thrown: "\<exists>ds. ds \<noteq> [] \<and>
      evaluate 0 (exampleHost exampleOptions) importingCollection ''greet'' (PlainScope VUndefined) None
        = Some (Inl (DiagnosticErrors ds)) \<and>
      expandTemplate (exampleHost exampleOptions) importingCollection ''greet'' (PlainScope VUndefined) None
        = Inl (DiagnosticErrors ds) \<and>
      analyzeTemplate (exampleHost exampleOptions) importingCollection ''greet''
        = Inl (DiagnosticErrors ds)"
    by blast
  from good preflight_check [of greetCollection 1 "exampleHost exampleOptions" "''greet''"
      "PlainScope VUndefined" None]
  have "evaluate 1 (exampleHost exampleOptions) greetCollection ''greet'' (PlainScope VUndefined) None =
        (case evaluateTemplate 1 (newEvaluator (exampleHost exampleOptions) (allTemplates greetCollection)
                (evalOptions (exampleHost exampleOptions) greetCollection None))
                ''greet'' (PlainScope VUndefined) initialState of
           None \<Rightarrow> None
         | Some (Inl e, st) \<Rightarrow> Some (Inl e)
         | Some (Inr result, st) \<Rightarrow>
             Some (Inr (case result of
                          VStr s \<Rightarrow>
                            if LineBreakStyle (evalOptions (exampleHost exampleOptions) greetCollection None) = Markdown
                            then VStr (replaceNewLine s) else result
                        | _ \<Rightarrow> result)))"
    by blast
  then have passed: "evaluate 1 (exampleHost exampleOptions) greetCollection ''greet'' (PlainScope VUndefined) None
     = Some (Inr (VStr ''hi''))"
    unfolding run by (simp add: evalOptions_def exampleHost_def exampleOptions_def)
  from bad thrown good passed show ?thesis by blast
qed

section \<open>Cycle detection, the stack and line breaks\<close>




text \<open>
  Claim C2 fails on the loop-detected exit: the call made by \<open>welcome\<close> finds the stack
  \<open>wPhrase\<close>, \<open>welcome\<close> (frames 0 and 1) and leaves it reversed when it throws. The
  enclosing call of \<open>welcome\<close>, entered with the frame of \<open>wPhrase\<close> on the stack, then
  pops the frame that is last, which is the caller's: it exits with its own frame
  still on the stack, and its error names \<open>wPhrase\<close> as the failing template.
\<close>

theorem loop_check_reverses_stack:
  "evaluationTargetStack loopState = [0, 1] \<and>
   evaluateTemplate 1 (exampleEvaluator loopTemplates exampleOptions) ''wPhrase''
     (MemoryScope emptyMemory) loopState
   = Some (Inl (LoopDetected [''welcome'', ''wPhrase'']),
           loopState\<lparr>evaluationTargetStack := [1, 0]\<rparr>) \<and>
   evaluationTargetStack welcomeEntry = [0] \<and>
   evaluateTemplate 2 (exampleEvaluator loopTemplates exampleOptions) ''welcome''
     (MemoryScope emptyMemory) welcomeEntry
   = Some (Inl (ErrorExpression (Some (LoopDetected [''welcome'', ''wPhrase''])) ''wPhrase''),
           loopState\<lparr>evaluationTargetStack := [1]\<rparr>)"
  by code_simp

text \<open>
  Claim C3 fails: in the Markdown style \<open>evaluateTemplate\<close> returns the text with its line
  feed doubled, and \<open>Templates.evaluate\<close> doubles the line feeds of that value again, so
  the caller receives four line feeds for the one produced.
\<close>

theorem markdown_newlines_twice:
  "evaluateTemplate 1 (exampleEvaluator multilineTemplates markdownOptions) ''note''
     (PlainScope VUndefined) initialState
   = Some (Inr (VStr [CHR ''a'', LF, LF, CHR ''b'']),
           \<lparr>frames = [\<lparr>templateName = ''note'',
                       scope = \<lparr>globalMemory = None, localMemory = None\<rparr>,
                       evaluatedChildren = []\<rparr>],
            evaluationTargetStack = [], randoms = 1\<rparr>) \<and>
   evaluate 1 (exampleHost markdownOptions) multilineCollection ''note'' (PlainScope VUndefined) None
   = Some (Inr (VStr [CHR ''a'', LF, LF, LF, LF, CHR ''b'']))"
  by code_simp

section \<open>Scopes of template calls\<close>

lemma find_Some_set: "find P xs = Some x \<Longrightarrow> P x \<and> x \<in> set xs"
  by (induction xs) (auto split: if_splits)

lemma templateMap_Some:
  "templateMap env t = Some tm \<Longrightarrow> name tm = t \<and> inTemplateMap env t"
  unfolding templateMap_def inTemplateMap_def
  by (drule find_Some_set) auto

lemma bindParameters_other:
  "k \<notin> set ps \<Longrightarrow> map_of (bindParameters ps args acc) k = map_of acc k"
  by (induction ps arbitrary: args acc) (auto simp: update_conv')

lemma bindParameters_nth:
  "distinct ps \<Longrightarrow> i < length ps \<Longrightarrow>
   map_of (bindParameters ps args acc) (ps ! i) = Some (if i < length args then args ! i else VUndefined)"
proof (induction ps arbitrary: args acc i)
  case Nil
  then show ?case by simp
next
  case (Cons e es)
  show ?case
  proof (cases i)
    case 0
    with Cons.prems show ?thesis
      by (cases args) (simp_all add: bindParameters_other update_conv')
  next
    case (Suc j)
    with Cons.prems have "j < length es" and "distinct es" by simp_all
    from Cons.IH [OF this(2) this(1)] Suc show ?thesis
      by (cases args) (simp_all add: nth_tl)
  qed
qed

text \<open>
  A template called as a function, by its name or through \<open>template(name, ...)\<close>, while
  \<open>current\<close> is the frame at the end of the stack array: with no argument the callee is
  evaluated against the scope of \<open>current\<close> itself; with arguments it is evaluated against
  a new memory whose global layer is the global layer of that scope and whose local
  layer binds the declared parameters, by position, to the arguments. A variable that
  is not a parameter is read from the global layer alone, so nothing of the local layer
  of \<open>current\<close> is visible. The frame at the end of the array is the frame of the calling
  template as long as no loop check has reversed the array.
\<close>

lemma scope_from_last_frame:
  assumes "parseTemplateName n = Inr (re, t)"
    and "templateMap env t = Some tm"
    and "currentTarget st = Some current"
  shows
   "constructScope env n [] st = Inr (scope current) \<and>
    templateEvaluator ev env n [] st = ev n (MemoryScope (scope current)) st \<and>
    templateFunction ev env (VStr n # args) st = templateEvaluator ev env n args st \<and>
    (args \<noteq> [] \<longrightarrow>
       (\<exists>bound.
          bound = bindParameters (parameters tm) args [] \<and>
          constructScope env n args st =
            Inr \<lparr>globalMemory = globalMemory (scope current), localMemory = Some (VObj bound)\<rparr> \<and>
          templateEvaluator ev env n args st =
            ev n (MemoryScope \<lparr>globalMemory = globalMemory (scope current),
                               localMemory = Some (VObj bound)\<rparr>) st \<and>
          (distinct (parameters tm) \<longrightarrow>
             (\<forall>i < length (parameters tm).
                map_of bound (parameters tm ! i) =
                  Some (if i < length args then args ! i else VUndefined))) \<and>
          (\<forall>x. x \<notin> set (parameters tm) \<longrightarrow>
             getValue \<lparr>globalMemory = globalMemory (scope current), localMemory = Some (VObj bound)\<rparr> x
               = layerValue (globalMemory (scope current)) x)))"
proof -
  from assms(2) have known: "inTemplateMap env t"
    by (simp add: templateMap_Some)
  have none: "constructScope env n [] st = Inr (scope current)"
    by (simp add: constructScope_def assms known)
  have some: "args \<noteq> [] \<Longrightarrow> constructScope env n args st =
      Inr \<lparr>globalMemory = globalMemory (scope current),
           localMemory = Some (VObj (bindParameters (parameters tm) args []))\<rparr>"
    by (simp add: constructScope_def assms known)
  have other: "\<And>x. x \<notin> set (parameters tm) \<Longrightarrow>
      getValue \<lparr>globalMemory = globalMemory (scope current),
                localMemory = Some (VObj (bindParameters (parameters tm) args []))\<rparr> x
        = layerValue (globalMemory (scope current)) x"
    by (simp add: getValue_def bindParameters_other)
  from none some other show ?thesis
    by (simp add: templateEvaluator_def templateFunction_def bindParameters_nth)
qed


lemma scope_from_last_frame_example:
  "parseTemplateName ''hello'' = Inr (False, ''hello'') \<and>
   templateMap (exampleEvaluator callTemplates exampleOptions) ''hello''
     = Some (exampleTemplate ''hello'' [''who'']
         (NormalBody [ [DASH, TEXT ''Hello, '', EXPRESSION (Accessor ''who''), TEXT '' '',
                       EXPRESSION (Accessor ''secret''), TEXT '' '',
                       EXPRESSION (Accessor ''city'')] ])) \<and>
   currentTarget callerState
     = Some \<lparr>templateName = ''main'', scope = callerMemory, evaluatedChildren = []\<rparr> \<and>
   constructScope (exampleEvaluator callTemplates exampleOptions) ''hello'' [] callerState
     = Inr callerMemory \<and>
   constructScope (exampleEvaluator callTemplates exampleOptions) ''hello'' [VStr ''Ana''] callerState
     = Inr \<lparr>globalMemory = Some (VObj [(''city'', VStr ''Oslo'')]),
            localMemory = Some (VObj [(''who'', VStr ''Ana'')])\<rparr> \<and>
   getValue \<lparr>globalMemory = Some (VObj [(''city'', VStr ''Oslo'')]),
             localMemory = Some (VObj [(''who'', VStr ''Ana'')])\<rparr> ''secret'' = VUndefined \<and>
   getValue callerMemory ''secret'' = VStr ''x''"
proof -
  have p: "parseTemplateName ''hello'' = Inr (False, ''hello'')"
    by (simp add: parseTemplateName_def endsWith_def ReExecuteSuffix_def)
  have m: "templateMap (exampleEvaluator callTemplates exampleOptions) ''hello''
     = Some (exampleTemplate ''hello'' [''who'']
         (NormalBody [ [DASH, TEXT ''Hello, '', EXPRESSION (Accessor ''who''), TEXT '' '',
                       EXPRESSION (Accessor ''secret''), TEXT '' '',
                       EXPRESSION (Accessor ''city'')] ]))"
    by (simp add: templateMap_def exampleEvaluator_def callTemplates_def exampleTemplate_def)
  have c: "currentTarget callerState
     = Some \<lparr>templateName = ''main'', scope = callerMemory, evaluatedChildren = []\<rparr>"
    by (simp add: currentTarget_def callerState_def)
  have b: "bindParameters [''who''] [VStr ''Ana''] [] = [(''who'', VStr ''Ana'')]"
    by simp
  have g: "globalMemory callerMemory = Some (VObj [(''city'', VStr ''Oslo'')])"
    by (simp add: callerMemory_def)
  have s: "getValue callerMemory ''secret'' = VStr ''x''"
    by (simp add: getValue_def callerMemory_def)
  from scope_from_last_frame [OF p m c, where args = "[VStr ''Ana'']"]
  have "constructScope (exampleEvaluator callTemplates exampleOptions) ''hello'' [] callerState
          = Inr callerMemory \<and>
        constructScope (exampleEvaluator callTemplates exampleOptions) ''hello'' [VStr ''Ana'']
            callerState
          = Inr \<lparr>globalMemory = Some (VObj [(''city'', VStr ''Oslo'')]),
                 localMemory = Some (VObj [(''who'', VStr ''Ana'')])\<rparr> \<and>
        getValue \<lparr>globalMemory = Some (VObj [(''city'', VStr ''Oslo'')]),
             localMemory = Some (VObj [(''who'', VStr ''Ana'')])\<rparr> ''secret''
          = layerValue (Some (VObj [(''city'', VStr ''Oslo'')])) ''secret''"
    by (simp add: exampleTemplate_def b g)
  with p m c s show ?thesis by simp
qed


text \<open>
  The function registered for an exported template builds the scope on a fresh
  evaluator, whose stack is empty: reading the scope of the current frame is a
  TypeError, whatever the arguments.
\<close>

lemma exported_function_throws:
  assumes "parseTemplateName n = Inr (re, t)"
    and "inTemplateMap (newEvaluator host (allTemplates this)
                          (newEvaluationOptions host (options this))) t"
  shows "globalTemplateFunction fuel host this n args = Some (Inl TypeError)"
  using assms
  by (simp add: globalTemplateFunction_def constructScope_def currentTarget_def
        initialState_def Let_def)

text \<open>
  Claim C7 fails once a loop check has reversed the stack. The scope of the evaluation
  binds \<open>p\<close> to \<open>outer\<close>. In \<open>A\<close> the condition calls \<open>B('x')\<close>, whose scope binds the parameter
  \<open>p\<close> to \<open>x\<close>; \<open>B\<close> calls \<open>A\<close>, the loop check reverses the stack in place and throws, the
  frame of \<open>A\<close> is popped in place of the frame of \<open>B\<close>, and the condition is false. The
  branch \<open>ELSE\<close> of \<open>A\<close> then calls \<open>C()\<close> with no argument, and \<open>C\<close> is evaluated against the
  scope of \<open>B\<close>: it reads \<open>p\<close> as \<open>x\<close>, where the scope of its caller \<open>A\<close> has \<open>outer\<close>, the
  value the same call gives from the template \<open>direct\<close>. Called as an exported function,
  \<open>C\<close> is given no scope at all: the call throws a TypeError.
\<close>

theorem call_scope_after_loop:
  "evaluateTemplate 4 (exampleEvaluator scopeTemplates exampleOptions) ''A'' outerScope
     initialState
   = Some (Inr (VStr ''x''),
       \<lparr>frames =
          [\<lparr>templateName = ''A'', scope = wrapScope outerScope, evaluatedChildren = []\<rparr>,
           \<lparr>templateName = ''B'',
            scope = \<lparr>globalMemory = Some (VObj [(''p'', VStr ''outer'')]),
                     localMemory = Some (VObj [(''p'', VStr ''x'')])\<rparr>,
            evaluatedChildren = [(''C'', VStr ''x'')]\<rparr>,
           \<lparr>templateName = ''C'',
            scope = \<lparr>globalMemory = Some (VObj [(''p'', VStr ''outer'')]),
                     localMemory = Some (VObj [(''p'', VStr ''x'')])\<rparr>,
            evaluatedChildren = []\<rparr>],
        evaluationTargetStack = [], randoms = 3\<rparr>) \<and>
   evaluateTemplate 2 (exampleEvaluator scopeTemplates exampleOptions) ''direct'' outerScope
     initialState
   = Some (Inr (VStr ''outer''),
       \<lparr>frames =
          [\<lparr>templateName = ''direct'', scope = wrapScope outerScope,
            evaluatedChildren = [(''C'', VStr ''outer'')]\<rparr>,
           \<lparr>templateName = ''C'', scope = wrapScope outerScope, evaluatedChildren = []\<rparr>],
        evaluationTargetStack = [], randoms = 2\<rparr>) \<and>
   globalTemplateFunction 2 (exampleHost exampleOptions) scopeCollection ''C'' []
   = Some (Inl TypeError)"
  by code_simp

section \<open>Structured templates\<close>

lemma andThen_Inr:
  "andThen r f = Some (Inr v, st') \<longleftrightarrow> (\<exists>a st1. r = Some (Inr a, st1) \<and> f a st1 = Some (Inr v, st'))"
  by (auto simp: andThen_def split: option.splits sum.splits prod.splits)

lemma andThen_assoc:
  "andThen (andThen r f) g = andThen r (\<lambda>a st1. andThen (f a st1) g)"
  by (auto simp: andThen_def split: option.splits sum.splits prod.splits)

lemma andThen_return [simp]: "andThen (return v st) f = f v st"
  by (simp add: andThen_def return_def)

lemma andThen_throw [simp]: "andThen (throw e st) f = throw e st"
  by (simp add: andThen_def throw_def)

lemma return_eq [simp]: "return v st = Some (Inr w, st') \<longleftrightarrow> v = w \<and> st = st'"
  by (auto simp: return_def)

lemma throw_neq [simp]: "throw e st \<noteq> Some (Inr w, st')"
  by (simp add: throw_def)

lemma lowerChar_not_T: "lowerChar c \<noteq> CHR ''T''"
proof -
  have "of_char (lowerChar c) \<noteq> (84::nat)"
    by (auto simp: lowerChar_def Let_def)
  then show ?thesis by auto
qed

lemma toLowerCase_not_LGType: "toLowerCase s \<noteq> LGType"
proof
  assume "toLowerCase s = LGType"
  then have "CHR ''T'' \<in> set (map lowerChar s)"
    by (simp add: toLowerCase_def LGType_def)
  then obtain c where "lowerChar c = CHR ''T''"
    by auto
  with lowerChar_not_T show False
    by blast
qed

lemma lowerChar_idem: "lowerChar (lowerChar c) = lowerChar c"
  by (auto simp: lowerChar_def Let_def)

lemma toLowerCase_idem: "toLowerCase (toLowerCase s) = toLowerCase s"
  by (simp add: toLowerCase_def lowerChar_idem)

text \<open>
  An assignment keeps the own keys there are, changes no key but its own, and leaves
  the prototype alone unless its key is \<open>__proto__\<close>.
\<close>

lemma assign_own:
  "k \<in> set (map fst (snd result)) \<Longrightarrow> k \<in> set (map fst (snd (assign arrayKeys result key v)))"
  by (auto simp: assign_def dom_update)

lemma assign_other:
  "key \<noteq> k \<Longrightarrow> map_of (snd (assign arrayKeys result key v)) k = map_of (snd result) k"
  by (simp add: assign_def update_conv')

lemma assign_prototype:
  "key \<noteq> ''__proto__'' \<Longrightarrow> fst (assign arrayKeys result key v) = fst result"
  by (simp add: assign_def)

lemma assign_stored:
  "key \<noteq> ''__proto__'' \<Longrightarrow> map_of (snd (assign arrayKeys result key v)) key = Some v"
  by (simp add: assign_def update_conv')

lemma hasProperty_toObject:
  "hasProperty arrayKeys (toObject result) k \<longleftrightarrow>
     k \<in> set (map fst (snd result)) \<or>
     (case fst result of
        None \<Rightarrow> k \<in> set objectPrototypeKeys
      | Some prototype \<Rightarrow> hasProperty arrayKeys prototype k)"
  by (simp add: toObject_def split: option.splits)

lemma setter_inherited:
  "findsObjectPrototype arrayKeys v ''__proto__'' \<Longrightarrow> hasProperty arrayKeys v ''__proto__''"
  by (induction arrayKeys v "''__proto__''" rule: findsObjectPrototype.induct)
     (simp_all add: objectPrototypeKeys_def)

text \<open>
  A key that is not yet \<open>in result\<close> is assigned as an own key: its name cannot reach the
  setter of \<open>Object.prototype\<close>.
\<close>

lemma assign_absent:
  assumes "\<not> hasProperty arrayKeys (toObject result) key"
  shows "assign arrayKeys result key v = (fst result, AList.update key v (snd result))"
proof (cases "key = ''__proto__''")
  case False
  then show ?thesis by (simp add: assign_def)
next
  case True
  with assms have "\<not> (case fst result of
                        None \<Rightarrow> True
                      | Some prototype \<Rightarrow> findsObjectPrototype arrayKeys prototype ''__proto__'')"
    by (auto simp: hasProperty_toObject objectPrototypeKeys_def dest: setter_inherited
             split: option.splits)
  then show ?thesis by (simp add: assign_def)
qed

lemma mergeKeys_prototype: "fst (mergeKeys arrayKeys po ks result) = fst result"
  by (induction ks arbitrary: result) (simp_all add: assign_absent)

lemma mergeKeys_own:
  "k \<in> set (map fst (snd result)) \<Longrightarrow> k \<in> set (map fst (snd (mergeKeys arrayKeys po ks result)))"
proof (induction ks arbitrary: result)
  case Nil
  then show ?case by simp
next
  case (Cons key ks)
  from Cons.prems
  have "k \<in> set (map fst (snd (assign arrayKeys result key (propertyOf po key))))"
    by (rule assign_own)
  from Cons.IH [OF this] Cons.IH [OF Cons.prems] show ?case
    by simp
qed

lemma mergeKeys_keep:
  "hasProperty arrayKeys (toObject result) k \<Longrightarrow>
   map_of (snd (mergeKeys arrayKeys po ks result)) k = map_of (snd result) k"
proof (induction ks arbitrary: result)
  case Nil
  then show ?case by simp
next
  case (Cons key ks)
  show ?case
  proof (cases "hasProperty arrayKeys (toObject result) key")
    case True
    with Cons show ?thesis by simp
  next
    case False
    with Cons.prems have ne: "key \<noteq> k" by auto
    let ?next = "(fst result, AList.update key (propertyOf po key) (snd result))"
    from Cons.prems have "hasProperty arrayKeys (toObject ?next) k"
      by (auto simp: hasProperty_toObject dom_update)
    from Cons.IH [OF this] False ne show ?thesis
      by (simp add: assign_absent update_conv')
  qed
qed

text \<open>
  Merging a referenced object keeps the prototype, the own keys and the value of every
  key that was \<open>in result\<close>.
\<close>

lemma mergeObject_prototype:
  "mergeObject env T po result = Inr merged \<Longrightarrow> fst merged = fst result"
  by (auto simp: mergeObject_def mergeKeys_prototype split: if_splits option.splits)

lemma mergeObject_own:
  "mergeObject env T po result = Inr merged \<Longrightarrow> k \<in> set (map fst (snd result)) \<Longrightarrow>
   k \<in> set (map fst (snd merged))"
  using mergeKeys_own [of k result]
  by (auto simp: mergeObject_def split: if_splits option.splits)

lemma mergeObject_keep:
  "mergeObject env T po result = Inr merged \<Longrightarrow>
   hasProperty (arrayPrototypeKeys (engine env)) (toObject result) k \<Longrightarrow>
   map_of (snd merged) k = map_of (snd result) k"
  by (auto simp: mergeObject_def mergeKeys_keep split: if_splits option.splits)

lemma own_hasProperty:
  "k \<in> set (map fst (snd result)) \<Longrightarrow> hasProperty arrayKeys (toObject result) k"
  by (simp add: hasProperty_toObject)

lemma structuredLines_step:
  assumes "structuredBodyContentLines ev env T (body # bodys) result st = Some (Inr final, st')"
  obtains (literal) ident vs v st1 where "body = KeyValueStructureLine ident vs"
      and "visitStructureValue ev env vs st = Some (Inr v, st1)"
      and "structuredBodyContentLines ev env T bodys
             (assign (arrayPrototypeKeys (engine env)) result (toLowerCase ident) v) st1
           = Some (Inr final, st')"
    | (reference) exp po st1 merged where "body = ObjectStructureLine exp"
      and "evalExpression ev env exp st = Some (Inr po, st1)"
      and "mergeObject env T po result = Inr merged"
      and "structuredBodyContentLines ev env T bodys merged st1 = Some (Inr final, st')"
proof (cases body)
  case (KeyValueStructureLine ident vs)
  with assms literal show ?thesis
    by (auto simp: andThen_Inr Let_def)
next
  case (ObjectStructureLine exp)
  with assms obtain po st1 where
    run: "evalExpression ev env exp st = Some (Inr po, st1)"
    and rest: "(case mergeObject env T po result of
                  Inl e \<Rightarrow> throw e st1
                | Inr merged \<Rightarrow> structuredBodyContentLines ev env T bodys merged st1)
               = Some (Inr final, st')"
    by (auto simp: andThen_Inr)
  show ?thesis
  proof (cases "mergeObject env T po result")
    case (Inl e)
    with rest show ?thesis by simp
  next
    case (Inr merged)
    with rest have "structuredBodyContentLines ev env T bodys merged st1 = Some (Inr final, st')"
      by simp
    with ObjectStructureLine run Inr show ?thesis
      by (rule reference)
  qed
qed

text \<open>
  An own key keeps its value through lines none of which is a literal line for it.
\<close>

lemma structuredLines_keep:
  "structuredBodyContentLines ev env T bodys result st = Some (Inr final, st') \<Longrightarrow>
   k \<in> set (map fst (snd result)) \<Longrightarrow>
   (\<forall>ident vs. KeyValueStructureLine ident vs \<in> set bodys \<longrightarrow> toLowerCase ident \<noteq> k) \<Longrightarrow>
   map_of (snd final) k = map_of (snd result) k \<and> k \<in> set (map fst (snd final))"
proof (induction bodys arbitrary: result st)
  case Nil
  then show ?case by simp
next
  case (Cons body bodys)
  from Cons.prems(3) have later:
    "\<forall>ident vs. KeyValueStructureLine ident vs \<in> set bodys \<longrightarrow> toLowerCase ident \<noteq> k"
    by auto
  from Cons.prems(1) show ?case
  proof (cases rule: structuredLines_step)
    case (literal ident vs v st1)
    from Cons.prems(3) literal(1) have ne: "toLowerCase ident \<noteq> k" by auto
    from Cons.prems(2)
    have "k \<in> set (map fst (snd (assign (arrayPrototypeKeys (engine env)) result (toLowerCase ident) v)))"
      by (rule assign_own)
    from Cons.IH [OF literal(3) this later] ne show ?thesis
      by (simp add: assign_other)
  next
    case (reference exp po st1 merged)
    from reference(3) Cons.prems(2) have "k \<in> set (map fst (snd merged))"
      by (rule mergeObject_own)
    from Cons.IH [OF reference(4) this later]
      mergeObject_keep [OF reference(3) own_hasProperty [OF Cons.prems(2)] ]
    show ?thesis by simp
  qed
qed

text \<open>
  A key that is \<open>in result\<close>, own or inherited, keeps its value (none, when it is
  inherited) through lines none of which is a literal line for it or for \<open>__proto__\<close>;
  the prototype stays as it is.
\<close>

lemma structuredLines_inherited:
  "structuredBodyContentLines ev env T bodys result st = Some (Inr final, st') \<Longrightarrow>
   hasProperty (arrayPrototypeKeys (engine env)) (toObject result) k \<Longrightarrow>
   (\<forall>ident vs. KeyValueStructureLine ident vs \<in> set bodys \<longrightarrow>
      toLowerCase ident \<noteq> k \<and> toLowerCase ident \<noteq> ''__proto__'') \<Longrightarrow>
   map_of (snd final) k = map_of (snd result) k \<and> fst final = fst result"
proof (induction bodys arbitrary: result st)
  case Nil
  then show ?case by simp
next
  case (Cons body bodys)
  from Cons.prems(3) have later:
    "\<forall>ident vs. KeyValueStructureLine ident vs \<in> set bodys \<longrightarrow>
       toLowerCase ident \<noteq> k \<and> toLowerCase ident \<noteq> ''__proto__''"
    by auto
  from Cons.prems(1) show ?case
  proof (cases rule: structuredLines_step)
    case (literal ident vs v st1)
    let ?next = "assign (arrayPrototypeKeys (engine env)) result (toLowerCase ident) v"
    from Cons.prems(3) literal(1) have ne: "toLowerCase ident \<noteq> k"
      and np: "toLowerCase ident \<noteq> ''__proto__''" by auto
    from np have proto: "fst ?next = fst result"
      by (rule assign_prototype)
    from Cons.prems(2) have "k \<in> set (map fst (snd result)) \<or>
        (case fst result of None \<Rightarrow> k \<in> set objectPrototypeKeys
         | Some prototype \<Rightarrow> hasProperty (arrayPrototypeKeys (engine env)) prototype k)"
      by (simp add: hasProperty_toObject)
    then have "hasProperty (arrayPrototypeKeys (engine env)) (toObject ?next) k"
      using assign_own [of k result "arrayPrototypeKeys (engine env)" "toLowerCase ident" v] proto
      by (auto simp: hasProperty_toObject)
    from Cons.IH [OF literal(3) this later] ne proto show ?thesis
      by (simp add: assign_other)
  next
    case (reference exp po st1 merged)
    from mergeObject_prototype [OF reference(3)] have proto: "fst merged = fst result" .
    from mergeObject_keep [OF reference(3) Cons.prems(2)]
    have same: "map_of (snd merged) k = map_of (snd result) k" .
    from Cons.prems(2) have "k \<in> set (map fst (snd result)) \<or>
        (case fst result of None \<Rightarrow> k \<in> set objectPrototypeKeys
         | Some prototype \<Rightarrow> hasProperty (arrayPrototypeKeys (engine env)) prototype k)"
      by (simp add: hasProperty_toObject)
    then have "hasProperty (arrayPrototypeKeys (engine env)) (toObject merged) k"
      using mergeObject_own [OF reference(3), of k] proto
      by (auto simp: hasProperty_toObject)
    from Cons.IH [OF reference(4) this later] same proto show ?thesis
      by simp
  qed
qed

lemma structuredLines_append:
  "structuredBodyContentLines ev env T (pre @ post) result st =
     andThen (structuredBodyContentLines ev env T pre result st)
       (\<lambda>mid st1. structuredBodyContentLines ev env T post mid st1)"
proof (induction pre arbitrary: result st)
  case Nil
  then show ?case by simp
next
  case (Cons body pre)
  have step: "\<And>r. structuredBodyContentLines ev env T (pre @ post) r =
      (\<lambda>st1. andThen (structuredBodyContentLines ev env T pre r st1)
               (\<lambda>mid st2. structuredBodyContentLines ev env T post mid st2))"
    by (rule ext) (simp add: Cons.IH)
  show ?case
  proof (cases body)
    case (KeyValueStructureLine ident vs)
    then show ?thesis
      by (simp add: step andThen_assoc Let_def)
  next
    case (ObjectStructureLine exp)
    have inner: "\<And>po st1.
      andThen (case mergeObject env T po result of
                 Inl e \<Rightarrow> throw e st1
               | Inr merged \<Rightarrow> structuredBodyContentLines ev env T pre merged st1)
        (\<lambda>mid st1. structuredBodyContentLines ev env T post mid st1)
      = (case mergeObject env T po result of
           Inl e \<Rightarrow> throw e st1
         | Inr merged \<Rightarrow> structuredBodyContentLines ev env T (pre @ post) merged st1)"
      by (simp add: Cons.IH split: sum.splits)
    have "structuredBodyContentLines ev env T ((body # pre) @ post) result st =
        andThen (evalExpression ev env exp st)
          (\<lambda>po st1.
             andThen (case mergeObject env T po result of
                        Inl e \<Rightarrow> throw e st1
                      | Inr merged \<Rightarrow> structuredBodyContentLines ev env T pre merged st1)
             (\<lambda>mid st1. structuredBodyContentLines ev env T post mid st1))"
      unfolding inner using ObjectStructureLine by simp
    with ObjectStructureLine show ?thesis
      by (simp add: andThen_assoc)
  qed
qed

lemma keyValueLines_keep:
  "structuredBodyContentLines ev env T bodys result st = Some (Inr final, st') \<Longrightarrow>
   (\<forall>l \<in> set bodys. \<exists>ident vs. l = KeyValueStructureLine ident vs) \<Longrightarrow>
   (\<forall>ident vs. KeyValueStructureLine ident vs \<in> set bodys \<longrightarrow> toLowerCase ident \<noteq> k) \<Longrightarrow>
   map_of (snd final) k = map_of (snd result) k"
proof (induction bodys arbitrary: result st)
  case Nil
  then show ?case by simp
next
  case (Cons body bodys)
  from Cons.prems(2) obtain ident vs where body: "body = KeyValueStructureLine ident vs"
    by auto
  from Cons.prems(2) have kv: "\<forall>l \<in> set bodys. \<exists>ident vs. l = KeyValueStructureLine ident vs"
    by simp
  from Cons.prems(3) have later:
    "\<forall>ident vs. KeyValueStructureLine ident vs \<in> set bodys \<longrightarrow> toLowerCase ident \<noteq> k"
    by auto
  from Cons.prems(3) body have ne: "toLowerCase ident \<noteq> k" by auto
  from Cons.prems(1) body obtain v st1 where
    rest: "structuredBodyContentLines ev env T bodys
             (assign (arrayPrototypeKeys (engine env)) result (toLowerCase ident) v) st1
             = Some (Inr final, st')"
    by (auto simp: andThen_Inr Let_def)
  from Cons.IH [OF rest kv later] ne show ?case
    by (simp add: assign_other)
qed

lemma structuredBody_split:
  assumes "visitStructuredTemplateBody ev env T (pre @ post) st = Some (Inr out, st')"
  shows "\<exists>final mid st1.
           out = toObject final \<and>
           structuredBodyContentLines ev env T pre (None, [(LGType, VStr T)]) st
             = Some (Inr mid, st1) \<and>
           structuredBodyContentLines ev env T post mid st1 = Some (Inr final, st')"
  using assms
  by (auto simp: visitStructuredTemplateBody_def structuredLines_append andThen_Inr)

lemma map_of_own: "map_of kv k = Some v \<Longrightarrow> k \<in> set (map fst kv)"
  by (auto dest: map_of_SomeD intro: rev_image_eqI)

lemma structuredLines_tag:
  assumes "structuredBodyContentLines ev env T bodys result st = Some (Inr final, st')"
    and "map_of (snd result) LGType = Some v"
  shows "map_of (snd final) LGType = Some v"
proof -
  from assms(2) have "LGType \<in> set (map fst (snd result))"
    by (rule map_of_own)
  from structuredLines_keep [OF assms(1) this] assms(2) toLowerCase_not_LGType
  show ?thesis by simp
qed

text \<open>
  Claim C4, as amended. In the object a structured template evaluates to, the type tag
  is the declared type name: it is set first and no line changes it. Whatever the lines
  \<open>pre\<close> have set, every own key present after them keeps its value through the lines
  \<open>post\<close> unless a literal key/value line of \<open>post\<close> names that key: merging a referenced
  object only adds keys that are not yet \<open>in\<close> the result, and a literal line assigns its
  own key and no other. A name the result only inherits after \<open>pre\<close> stays without an own
  value on the same condition, provided no literal line of \<open>post\<close> is for \<open>__proto__\<close>,
  which would replace the prototype the name is inherited from.
\<close>

theorem structured_first_writer:
  assumes "visitStructuredTemplateBody ev env T (pre @ post) st = Some (Inr out, st')"
  shows "\<exists>final mid st1.
           out = toObject final \<and>
           map_of (snd final) LGType = Some (VStr T) \<and>
           structuredBodyContentLines ev env T pre (None, [(LGType, VStr T)]) st
             = Some (Inr mid, st1) \<and>
           (\<forall>k. (\<forall>ident vs. KeyValueStructureLine ident vs \<in> set post \<longrightarrow> toLowerCase ident \<noteq> k) \<and>
                (k \<in> set (map fst (snd mid)) \<or>
                 hasProperty (arrayPrototypeKeys (engine env)) (toObject mid) k \<and>
                 (\<forall>ident vs. KeyValueStructureLine ident vs \<in> set post \<longrightarrow>
                    toLowerCase ident \<noteq> ''__proto__''))
                \<longrightarrow> map_of (snd final) k = map_of (snd mid) k)"
proof -
  from structuredBody_split [OF assms] obtain final mid st1 where
    out: "out = toObject final"
    and pre: "structuredBodyContentLines ev env T pre (None, [(LGType, VStr T)]) st
                = Some (Inr mid, st1)"
    and post: "structuredBodyContentLines ev env T post mid st1 = Some (Inr final, st')"
    by blast
  from structuredLines_tag [OF pre] have "map_of (snd mid) LGType = Some (VStr T)"
    by simp
  from structuredLines_tag [OF post this] have tag: "map_of (snd final) LGType = Some (VStr T)" .
  have keep: "map_of (snd final) k = map_of (snd mid) k"
    if free: "\<forall>ident vs. KeyValueStructureLine ident vs \<in> set post \<longrightarrow> toLowerCase ident \<noteq> k"
      and present: "k \<in> set (map fst (snd mid)) \<or>
                 hasProperty (arrayPrototypeKeys (engine env)) (toObject mid) k \<and>
                 (\<forall>ident vs. KeyValueStructureLine ident vs \<in> set post \<longrightarrow>
                    toLowerCase ident \<noteq> ''__proto__'')" for k
  proof -
    from present show ?thesis
    proof
      assume "k \<in> set (map fst (snd mid))"
      from structuredLines_keep [OF post this free] show ?thesis by simp
    next
      assume inherited: "hasProperty (arrayPrototypeKeys (engine env)) (toObject mid) k \<and>
                 (\<forall>ident vs. KeyValueStructureLine ident vs \<in> set post \<longrightarrow>
                    toLowerCase ident \<noteq> ''__proto__'')"
      with free have "\<forall>ident vs. KeyValueStructureLine ident vs \<in> set post \<longrightarrow>
                        toLowerCase ident \<noteq> k \<and> toLowerCase ident \<noteq> ''__proto__''"
        by blast
      from structuredLines_inherited [OF post _ this] inherited show ?thesis by simp
    qed
  qed
  from out tag pre keep show ?thesis by blast
qed

lemma card_run:
  "visitStructuredTemplateBody (evaluateTemplate 1 (exampleEvaluator cardTemplates exampleOptions))
     (exampleEvaluator cardTemplates exampleOptions) ''Card''
     ([titleOne] @ [ObjectStructureLine (Call ''base'' [])]) cardState
   = Some (Inr (VObj [(''lgType'', VStr ''Card''), (''title'', VStr ''one''),
                      (''speak'', VStr ''aloud'')]), cardStateAfter)"
  by code_simp

lemma card_prefix:
  "structuredBodyContentLines (evaluateTemplate 1 (exampleEvaluator cardTemplates exampleOptions))
     (exampleEvaluator cardTemplates exampleOptions) ''Card'' [titleOne]
     (None, [(LGType, VStr ''Card'')]) cardState
   = Some (Inr (None, [(''lgType'', VStr ''Card''), (''title'', VStr ''one'')]), cardState)"
  by code_simp

theorem structured_first_writer_witness:
  "visitStructuredTemplateBody (evaluateTemplate 1 (exampleEvaluator cardTemplates exampleOptions))
     (exampleEvaluator cardTemplates exampleOptions) ''Card''
     ([titleOne] @ [ObjectStructureLine (Call ''base'' [])]) cardState
   = Some (Inr (VObj [(''lgType'', VStr ''Card''), (''title'', VStr ''one''),
                      (''speak'', VStr ''aloud'')]), cardStateAfter) \<and>
   (\<exists>final. VObj [(''lgType'', VStr ''Card''), (''title'', VStr ''one''),
                   (''speak'', VStr ''aloud'')] = toObject final \<and>
            map_of (snd final) LGType = Some (VStr ''Card'') \<and>
            map_of (snd final) ''title'' = Some (VStr ''one'') \<and>
            map_of (snd final) ''toString'' = None)"
proof -
  from structured_first_writer [OF card_run] obtain final mid st1 where
    out: "VObj [(''lgType'', VStr ''Card''), (''title'', VStr ''one''),
                (''speak'', VStr ''aloud'')] = toObject final"
    and tag: "map_of (snd final) LGType = Some (VStr ''Card'')"
    and pre: "structuredBodyContentLines
                (evaluateTemplate 1 (exampleEvaluator cardTemplates exampleOptions))
                (exampleEvaluator cardTemplates exampleOptions) ''Card'' [titleOne]
                (None, [(LGType, VStr ''Card'')]) cardState = Some (Inr mid, st1)"
    and keep: "\<forall>k. (\<forall>ident vs. KeyValueStructureLine ident vs
                     \<in> set [ObjectStructureLine (Call ''base'' [])] \<longrightarrow> toLowerCase ident \<noteq> k) \<and>
                (k \<in> set (map fst (snd mid)) \<or>
                 hasProperty (arrayPrototypeKeys
                                (engine (exampleEvaluator cardTemplates exampleOptions)))
                   (toObject mid) k \<and>
                 (\<forall>ident vs. KeyValueStructureLine ident vs
                     \<in> set [ObjectStructureLine (Call ''base'' [])] \<longrightarrow>
                    toLowerCase ident \<noteq> ''__proto__''))
                \<longrightarrow> map_of (snd final) k = map_of (snd mid) k"
    by blast
  from pre card_prefix
  have mid: "mid = (None, [(''lgType'', VStr ''Card''), (''title'', VStr ''one'')])"
    by simp
  then have "''title'' \<in> set (map fst (snd mid))"
    by simp
  with keep have "map_of (snd final) ''title'' = map_of (snd mid) ''title''"
    by simp
  with mid have title: "map_of (snd final) ''title'' = Some (VStr ''one'')"
    by simp
  from mid have "hasProperty (arrayPrototypeKeys
                                (engine (exampleEvaluator cardTemplates exampleOptions)))
                   (toObject mid) ''toString''"
    by (simp add: toObject_def objectPrototypeKeys_def)
  with keep have "map_of (snd final) ''toString'' = map_of (snd mid) ''toString''"
    by simp
  with mid have inherited: "map_of (snd final) ''toString'' = None"
    by simp
  from out tag card_run title inherited show ?thesis by blast
qed

text \<open>
  Claim C4 as stated fails for literal lines: the line \<open>Title = one\<close> sets the key
  \<open>title\<close>, and a later line \<open>title = two\<close> replaces its value.
\<close>

theorem structured_overwrite_counterexample:
  "evaluateTemplate 1 (exampleEvaluator cardTemplates exampleOptions) ''cardOnce''
     (PlainScope VUndefined) initialState
   = Some (Inr (VObj [(''lgType'', VStr ''Card''), (''title'', VStr ''one'')]),
           \<lparr>frames = [\<lparr>templateName = ''cardOnce'',
                       scope = \<lparr>globalMemory = None, localMemory = None\<rparr>,
                       evaluatedChildren = []\<rparr>],
            evaluationTargetStack = [], randoms = 0\<rparr>) \<and>
   evaluateTemplate 1 (exampleEvaluator cardTemplates exampleOptions) ''cardTwice''
     (PlainScope VUndefined) initialState
   = Some (Inr (VObj [(''lgType'', VStr ''Card''), (''title'', VStr ''two'')]),
           \<lparr>frames = [\<lparr>templateName = ''cardTwice'',
                       scope = \<lparr>globalMemory = None, localMemory = None\<rparr>,
                       evaluatedChildren = []\<rparr>],
            evaluationTargetStack = [], randoms = 0\<rparr>)"
  by code_simp

text \<open>
  The condition on \<open>__proto__\<close> is needed for the inherited names. With \<open>n\<close> null in the
  scope, the line \<open>__proto__ = ${n}\<close> leaves the result without prototype, so the name
  \<open>toString\<close>, inherited until then, is no longer \<open>in\<close> the result, and the object line
  that follows copies the key \<open>toString\<close> of the referenced object.
\<close>

lemma structured_prototype_replaced:
  "evaluateTemplate 1 (exampleEvaluator nullProtoTemplates exampleOptions) ''bare''
     nullProtoScope initialState
   = Some (Inr (VProto VNull [(''lgType'', VStr ''Card''), (''toString'', VStr ''x'')]),
           \<lparr>frames = [\<lparr>templateName = ''bare'', scope = wrapScope nullProtoScope,
                       evaluatedChildren = []\<rparr>],
            evaluationTargetStack = [], randoms = 0\<rparr>)"
  by code_simp

text \<open>
  Claim C10 fails for the identifier \<open>__proto__\<close>. The identifier is lowercased to itself,
  and the assignment \<open>result['__proto__'] = 'x'\<close> runs the setter that every object
  inherits, which drops a string: the result of the template with the lines
  \<open>__proto__ = x\<close> and \<open>b = y\<close> has the type tag and the key \<open>b\<close>, and no key for the first
  line.
\<close>

theorem structured_proto_key_dropped:
  "toLowerCase ''__proto__'' = ''__proto__'' \<and>
   evaluateTemplate 1 (exampleEvaluator protoTemplates exampleOptions) ''protoCard''
     (PlainScope VUndefined) initialState
   = Some (Inr (VObj [(''lgType'', VStr ''Card''), (''b'', VStr ''y'')]),
           \<lparr>frames = [\<lparr>templateName = ''protoCard'',
                       scope = \<lparr>globalMemory = None, localMemory = None\<rparr>,
                       evaluatedChildren = []\<rparr>],
            evaluationTargetStack = [], randoms = 0\<rparr>)"
  by code_simp

text \<open>
  For every other identifier a literal key/value line stores its value under the
  lowercased identifier: the lines after it run on the result assigned at that key, and
  the key holds the line's value at the end when no later literal line has the same
  lowercased identifier. The type tag holds the declared type name as written. In a
  body of literal lines only, an identifier written with an uppercase letter is not
  itself a key of the result (the tag's own name apart).
\<close>

lemma key_value_line_stored:
  assumes "visitStructuredTemplateBody ev env T (pre @ KeyValueStructureLine ident vs # post) st
             = Some (Inr out, st')"
  shows "\<exists>final mid st1 v st2.
           out = toObject final \<and>
           structuredBodyContentLines ev env T pre (None, [(LGType, VStr T)]) st
             = Some (Inr mid, st1) \<and>
           visitStructureValue ev env vs st1 = Some (Inr v, st2) \<and>
           structuredBodyContentLines ev env T post
             (assign (arrayPrototypeKeys (engine env)) mid (toLowerCase ident) v) st2
             = Some (Inr final, st') \<and>
           (toLowerCase ident \<noteq> ''__proto__'' \<and>
            (\<forall>ident' vs'. KeyValueStructureLine ident' vs' \<in> set post \<longrightarrow>
                toLowerCase ident' \<noteq> toLowerCase ident)
              \<longrightarrow> map_of (snd final) (toLowerCase ident) = Some v) \<and>
           map_of (snd final) LGType = Some (VStr T) \<and>
           ((\<forall>l \<in> set (pre @ post). \<exists>i w. l = KeyValueStructureLine i w) \<and>
            ident \<noteq> toLowerCase ident \<and> ident \<noteq> LGType
              \<longrightarrow> map_of (snd final) ident = None)"
proof -
  from structuredBody_split [OF assms] obtain final mid st1 where
    out: "out = toObject final"
    and pre: "structuredBodyContentLines ev env T pre (None, [(LGType, VStr T)]) st
                = Some (Inr mid, st1)"
    and line: "structuredBodyContentLines ev env T (KeyValueStructureLine ident vs # post) mid st1
                 = Some (Inr final, st')"
    by blast
  from line obtain v st2 where
    val: "visitStructureValue ev env vs st1 = Some (Inr v, st2)"
    and post: "structuredBodyContentLines ev env T post
                 (assign (arrayPrototypeKeys (engine env)) mid (toLowerCase ident) v) st2
                 = Some (Inr final, st')"
    by (auto simp: andThen_Inr Let_def)
  have last: "map_of (snd final) (toLowerCase ident) = Some v"
    if np: "toLowerCase ident \<noteq> ''__proto__''"
      and free: "\<forall>ident' vs'. KeyValueStructureLine ident' vs' \<in> set post \<longrightarrow>
                toLowerCase ident' \<noteq> toLowerCase ident"
  proof -
    from np have stored:
      "map_of (snd (assign (arrayPrototypeKeys (engine env)) mid (toLowerCase ident) v))
         (toLowerCase ident) = Some v"
      by (rule assign_stored)
    from structuredLines_keep [OF post map_of_own [OF stored] free] stored show ?thesis
      by simp
  qed
  from assms have whole:
    "structuredBodyContentLines ev env T (pre @ KeyValueStructureLine ident vs # post)
       (None, [(LGType, VStr T)]) st = Some (Inr final, st')"
    using pre line by (simp add: structuredLines_append andThen_def)
  from structuredLines_tag [OF whole] have tag: "map_of (snd final) LGType = Some (VStr T)"
    by simp
  have only: "map_of (snd final) ident = None"
    if kv: "\<forall>l \<in> set (pre @ post). \<exists>i w. l = KeyValueStructureLine i w"
      and upper: "ident \<noteq> toLowerCase ident" and notTag: "ident \<noteq> LGType"
  proof -
    from kv have all: "\<forall>l \<in> set (pre @ KeyValueStructureLine ident vs # post).
                         \<exists>i w. l = KeyValueStructureLine i w"
      by auto
    have "toLowerCase i \<noteq> ident" for i
    proof
      assume "toLowerCase i = ident"
      then have "toLowerCase ident = ident"
        using toLowerCase_idem [of i] by simp
      with upper show False by simp
    qed
    then have "\<forall>i w. KeyValueStructureLine i w \<in> set (pre @ KeyValueStructureLine ident vs # post)
                 \<longrightarrow> toLowerCase i \<noteq> ident"
      by blast
    from keyValueLines_keep [OF whole all this] notTag show ?thesis
      by simp
  qed
  from out pre val post last tag only show ?thesis
    by blast
qed

section \<open>Switch bodies\<close>

lemma andThen_cong: "(\<And>a s. f a s = g a s) \<Longrightarrow> andThen r f = andThen r g"
  by (auto simp: andThen_def split: option.splits sum.splits prod.splits)

lemma switchCaseNodes_spec:
  "1 \<le> idx \<Longrightarrow> len = idx + int (length cases) \<Longrightarrow>
   switchCaseNodes ev env sw len idx cases st = switchCasesSpec ev env sw cases st"
proof (induction cases arbitrary: idx st)
  case Nil
  then show ?case by simp
next
  case (Cons caseNode later)
  obtain stat caseExprs body where node: "caseNode = SwitchCaseRule stat caseExprs body"
    by (cases caseNode)
  from Cons.prems have last: "idx = len - 1 \<longleftrightarrow> later = []"
    by auto
  from Cons.prems have next_ok: "1 \<le> idx + 1" "len = (idx + 1) + int (length later)"
    by auto
  have rest: "\<And>st1. switchCaseNodes ev env sw len (idx + 1) later st1
                = switchCasesSpec ev env sw later st1"
    by (rule Cons.IH [OF next_ok])
  from Cons.prems(1) have "idx \<noteq> 0" by simp
  then show ?case
    unfolding node
    by (auto simp: last rest split: list.splits option.splits intro!: andThen_cong)
qed

text \<open>
  Claim C6. The evaluation of a switch body is the one the specification describes: the
  switch expression is evaluated once and turned into a string, then the cases are
  taken in source order, each case expression evaluated to a string and compared for
  equality; the first equal case has its body evaluated; a DEFAULT case is taken only
  as the last node, when no case before it matched; the end of the cases is undefined.
\<close>

theorem switch_as_specified:
  "visitSwitchCaseBody ev env switchcaseNodes st = visitSwitchCaseBodySpec ev env switchcaseNodes st"
proof (cases switchcaseNodes)
  case Nil
  then show ?thesis
    by (simp add: visitSwitchCaseBody_def visitSwitchCaseBodySpec_def)
next
  case (Cons switchNode cases)
  obtain stat switchExprs body where node: "switchNode = SwitchCaseRule stat switchExprs body"
    by (cases switchNode)
  have rest: "\<And>sw st1.
      switchCaseNodes ev env sw (int (length (switchNode # cases))) 0 (switchNode # cases) st1
        = switchCasesSpec ev env sw cases st1"
    unfolding node by (simp add: switchCaseNodes_spec)
  show ?thesis
    unfolding Cons visitSwitchCaseBody_def visitSwitchCaseBodySpec_def node list.case switchCaseRule.case
    using rest [unfolded node]
    by (auto split: list.splits option.splits intro!: andThen_cong)
qed

lemma day_spec:
  "visitSwitchCaseBodySpec (evaluateTemplate 1 (exampleEvaluator [] exampleOptions))
     (exampleEvaluator [] exampleOptions) dayNodes (dayState ''sun'')
   = Some (Inr (VStr ''second''), (dayState ''sun'')\<lparr>randoms := 1\<rparr>) \<and>
   visitSwitchCaseBodySpec (evaluateTemplate 1 (exampleEvaluator [] exampleOptions))
     (exampleEvaluator [] exampleOptions) dayNodes (dayState ''mon'')
   = Some (Inr (VStr ''weekday''), (dayState ''mon'')\<lparr>randoms := 1\<rparr>) \<and>
   visitSwitchCaseBodySpec (evaluateTemplate 1 (exampleEvaluator [] exampleOptions))
     (exampleEvaluator [] exampleOptions) (butlast dayNodes) (dayState ''mon'')
   = Some (Inr VUndefined, dayState ''mon'')"
  by code_simp

theorem switch_as_specified_witness:
  "visitSwitchCaseBody (evaluateTemplate 1 (exampleEvaluator [] exampleOptions))
     (exampleEvaluator [] exampleOptions) dayNodes (dayState ''sun'')
   = Some (Inr (VStr ''second''), (dayState ''sun'')\<lparr>randoms := 1\<rparr>) \<and>
   visitSwitchCaseBody (evaluateTemplate 1 (exampleEvaluator [] exampleOptions))
     (exampleEvaluator [] exampleOptions) dayNodes (dayState ''mon'')
   = Some (Inr (VStr ''weekday''), (dayState ''mon'')\<lparr>randoms := 1\<rparr>) \<and>
   visitSwitchCaseBody (evaluateTemplate 1 (exampleEvaluator [] exampleOptions))
     (exampleEvaluator [] exampleOptions) (butlast dayNodes) (dayState ''mon'')
   = Some (Inr VUndefined, dayState ''mon'')"
  using day_spec
  by (simp only: switch_as_specified)

section \<open>Memoization\<close>

lemma framesKept_simps [simp]:
  "framesKept n None"
  "framesKept n (Some (x, st')) = (n \<le> length (frames st'))"
  "framesKept n (return v st) = (n \<le> length (frames st))"
  "framesKept n (throw e st) = (n \<le> length (frames st))"
  by (simp_all add: framesKept_def return_def throw_def)

lemma frames_pop [simp]: "frames (pop st) = frames st"
  by (simp add: pop_def)

lemma length_frames_push [simp]: "length (frames (push target st)) = Suc (length (frames st))"
  by (simp add: push_def)

lemma length_frames_set [simp]:
  "length (frames (setEvaluatedChild a key v st)) = length (frames st)"
  by (simp add: setEvaluatedChild_def)

lemma framesKept_andThen:
  assumes "framesKept n r"
    and "\<And>v s. n \<le> length (frames s) \<Longrightarrow> framesKept n (f v s)"
  shows "framesKept n (andThen r f)"
proof (cases r)
  case None
  then show ?thesis by (simp add: andThen_def)
next
  case (Some a)
  obtain x s where a: "a = (x, s)" by (cases a)
  from assms(1) Some a have kept: "n \<le> length (frames s)" by simp
  show ?thesis
  proof (cases x)
    case (Inl e)
    with Some a kept show ?thesis by (simp add: andThen_def)
  next
    case (Inr v)
    with Some a assms(2) [OF kept, of v] show ?thesis by (simp add: andThen_def)
  qed
qed

lemma framesKept_caught [simp]: "framesKept n (caught r) = framesKept n r"
  by (auto simp: caught_def framesKept_def split: option.splits sum.splits prod.splits)

lemma keepsFramesD: "keepsFrames ev \<Longrightarrow> n \<le> length (frames st) \<Longrightarrow> framesKept n (ev tName sc st)"
  by (simp add: keepsFrames_def)

lemma templateEvaluator_frames:
  "keepsFrames ev \<Longrightarrow> n \<le> length (frames st) \<Longrightarrow> framesKept n (templateEvaluator ev env tName args st)"
  by (auto simp: templateEvaluator_def keepsFramesD split: sum.splits)

lemma templateFunction_frames:
  "keepsFrames ev \<Longrightarrow> n \<le> length (frames st) \<Longrightarrow> framesKept n (templateFunction ev env args st)"
  by (auto simp: templateFunction_def templateEvaluator_frames split: list.splits val.splits)

lemma activityAttachment_frames:
  "n \<le> length (frames st) \<Longrightarrow> framesKept n (activityAttachment env args st)"
  by (auto simp: activityAttachment_def split: list.splits option.splits)

lemma isTemplate_frames:
  "n \<le> length (frames st) \<Longrightarrow> framesKept n (isTemplate env args st)"
  by (auto simp: isTemplate_def split: list.splits option.splits)

lemma applyEvaluator_frames:
  assumes "keepsFrames ev" and "n \<le> length (frames st)"
  shows "framesKept n (applyEvaluator ev env found args st)"
proof (cases found)
  case (StandardEvaluator standardFunction)
  with assms(2) show ?thesis
    by (cases "standardFunction args") (simp_all add: applyEvaluator_def)
next
  case (TemplateReference name1 pureName)
  with templateEvaluator_frames [OF assms] show ?thesis
    by (simp add: applyEvaluator_def)
next
  case TemplateCall
  with templateFunction_frames [OF assms] show ?thesis
    by (simp add: applyEvaluator_def)
next
  case AttachmentCall
  with activityAttachment_frames [OF assms(2)] show ?thesis
    by (simp add: applyEvaluator_def)
next
  case IsTemplateCall
  with isTemplate_frames [OF assms(2)] show ?thesis
    by (simp add: applyEvaluator_def)
qed

lemma children_frames:
  assumes "\<And>child m st1. child \<in> set children \<Longrightarrow> m \<le> length (frames st1) \<Longrightarrow>
             framesKept m (tryEvaluate ev env child memory st1)"
    and "n \<le> length (frames st)"
  shows "framesKept n (evaluateChildren ev env children memory st)"
  using assms
proof (induction children arbitrary: st)
  case Nil
  then show ?case by simp
next
  case (Cons child children)
  from Cons.prems have first: "framesKept n (tryEvaluate ev env child memory st)"
    by simp
  show ?case
  proof (cases "tryEvaluate ev env child memory st")
    case None
    then show ?thesis by simp
  next
    case (Some a)
    obtain v err st1 where a: "a = ((v, err), st1)"
      by (cases a) auto
    from first Some a have kept: "n \<le> length (frames st1)"
      by simp
    show ?thesis
    proof (cases err)
      case (Some e)
      with \<open>tryEvaluate ev env child memory st = Some a\<close> a kept show ?thesis
        by simp
    next
      case None
      have "framesKept n (evaluateChildren ev env children memory st1)"
        by (rule Cons.IH) (simp_all add: Cons.prems(1) kept)
      with \<open>tryEvaluate ev env child memory st = Some a\<close> a None show ?thesis
        by (cases "evaluateChildren ev env children memory st1") auto
    qed
  qed
qed

lemma tryEvaluate_frames:
  "keepsFrames ev \<Longrightarrow> n \<le> length (frames st) \<Longrightarrow>
     framesKept n (tryEvaluate ev env exp memory st)"
proof (induction exp arbitrary: n st)
  case (Constant v)
  then show ?case by simp
next
  case (Accessor path)
  then show ?case by (simp add: Let_def)
next
  case (Call f children)
  have args: "framesKept n (evaluateChildren ev env children memory st)"
    by (rule children_frames) (simp_all add: Call)
  show ?case
  proof (cases "evaluateChildren ev env children memory st")
    case None
    then show ?thesis by simp
  next
    case (Some a)
    obtain vs err st1 where a: "a = ((vs, err), st1)"
      by (cases a) auto
    from args Some a have kept: "n \<le> length (frames st1)"
      by simp
    from applyEvaluator_frames [OF Call.prems(1) kept]
    have "framesKept n (applyEvaluator ev env found vs st1)" for found .
    with Some a kept show ?thesis
      by (cases err) (simp_all split: sum.splits option.splits)
  qed
qed

lemma expression_frames:
  assumes "keepsFrames ev" and "n \<le> length (frames st)"
  shows "framesKept n (evalByAdaptiveExpression ev env exp memory st)"
proof (cases "parse env exp")
  case (Some e)
  with assms(2) show ?thesis
    by (simp add: evalByAdaptiveExpression_def)
next
  case None
  with tryEvaluate_frames [OF assms, of env exp memory] show ?thesis
    by (cases "tryEvaluate ev env exp memory st") (auto simp: evalByAdaptiveExpression_def)
qed

lemma evalExpression_frames:
  assumes "keepsFrames ev" and "n \<le> length (frames st)"
  shows "framesKept n (evalExpression ev env exp st)"
proof (cases "currentTarget st")
  case None
  with assms(2) show ?thesis by (simp add: evalExpression_def)
next
  case (Some target)
  from expression_frames [OF assms]
  have kept: "framesKept n (evalByAdaptiveExpression ev env exp (scope target) st)" .
  show ?thesis
  proof (cases "evalByAdaptiveExpression ev env exp (scope target) st")
    case None
    with Some show ?thesis by (simp add: evalExpression_def)
  next
    case (Some a)
    obtain x st1 where a: "a = (x, st1)"
      by (cases a)
    from kept Some a have len: "n \<le> length (frames st1)"
      by simp
    show ?thesis
    proof (cases x)
      case (Inl e)
      with \<open>currentTarget st = Some target\<close> Some a len show ?thesis
        by (simp add: evalExpression_def)
    next
      case (Inr valueAndError)
      obtain v err where "valueAndError = (v, err)"
        by (cases valueAndError)
      with Inr \<open>currentTarget st = Some target\<close> Some a len show ?thesis
        by (cases "currentTarget st1") (simp_all add: evalExpression_def)
    qed
  qed
qed

lemma evalCondition_frames:
  assumes "keepsFrames ev" and "n \<le> length (frames st)"
  shows "framesKept n (evalCondition ev env condition st)"
proof (cases condition)
  case None
  with assms(2) show ?thesis by (simp add: evalCondition_def)
next
  case (Some exp)
  show ?thesis
  proof (cases "currentTarget st")
    case None
    with Some assms(2) show ?thesis
      by (simp add: evalCondition_def evalExpressionInCondition_def)
  next
    case target: (Some target)
    from expression_frames [OF assms]
    have kept: "framesKept n (evalByAdaptiveExpression ev env exp (scope target) st)" .
    show ?thesis
    proof (cases "evalByAdaptiveExpression ev env exp (scope target) st")
      case None
      with Some target show ?thesis
        by (simp add: evalCondition_def evalExpressionInCondition_def)
    next
      case outcome: (Some a)
      obtain x st1 where a: "a = (x, st1)"
        by (cases a)
      from kept outcome a have len: "n \<le> length (frames st1)"
        by simp
      show ?thesis
      proof (cases x)
        case (Inl e)
        with Some target outcome a len show ?thesis
          by (simp add: evalCondition_def evalExpressionInCondition_def)
      next
        case (Inr valueAndError)
        obtain v err where "valueAndError = (v, err)"
          by (cases valueAndError)
        with Inr Some target outcome a len show ?thesis
          by (cases "currentTarget st1")
             (simp_all add: evalCondition_def evalExpressionInCondition_def)
      qed
    qed
  qed
qed

lemma normalTemplateStringNodes_frames:
  "keepsFrames ev \<Longrightarrow> n \<le> length (frames st) \<Longrightarrow>
   framesKept n (normalTemplateStringNodes ev env children result st)"
proof (induction children arbitrary: result st)
  case Nil
  then show ?case by simp
next
  case (Cons innerNode rest)
  show ?case
  proof (cases innerNode)
    case (EXPRESSION exp)
    have "framesKept n
            (andThen (evalExpression ev env exp st)
               (\<lambda>v st1. normalTemplateStringNodes ev env rest (result @ [v]) st1))"
      by (rule framesKept_andThen) (simp_all add: evalExpression_frames Cons)
    with EXPRESSION show ?thesis by simp
  qed (simp_all add: Cons)
qed

lemma visitNormalTemplateString_frames:
  assumes "keepsFrames ev" and "n \<le> length (frames st)"
  shows "framesKept n (visitNormalTemplateString ev env children st)"
  unfolding visitNormalTemplateString_def
  by (rule framesKept_andThen)
     (simp_all add: normalTemplateStringNodes_frames assms split: list.splits)

lemma visitNormalTemplateBody_frames:
  assumes "keepsFrames ev" and "n \<le> length (frames st)"
  shows "framesKept n (visitNormalTemplateBody ev env strs st)"
  using assms
  by (simp add: visitNormalTemplateBody_def Let_def visitNormalTemplateString_frames)

lemma visitIfElseBody_frames:
  "keepsFrames ev \<Longrightarrow> n \<le> length (frames st) \<Longrightarrow>
   framesKept n (visitIfElseBody ev env ifRules st)"
proof (induction ifRules arbitrary: st)
  case Nil
  then show ?case by simp
next
  case (Cons ifRule ifRules)
  obtain ifCondition body where rule: "ifRule = IfConditionRule ifCondition body"
    by (cases ifRule)
  have "framesKept n
          (andThen (evalCondition ev env ifCondition st)
             (\<lambda>holds st1.
                case body of
                  Some normalBody \<Rightarrow>
                    if holds then visitNormalTemplateBody ev env normalBody st1
                    else visitIfElseBody ev env ifRules st1
                | None \<Rightarrow> visitIfElseBody ev env ifRules st1))"
    by (rule framesKept_andThen)
       (simp_all add: evalCondition_frames visitNormalTemplateBody_frames Cons
          split: option.splits)
  with rule show ?case by simp
qed


lemma switchCaseNodes_frames:
  "keepsFrames ev \<Longrightarrow> n \<le> length (frames st) \<Longrightarrow>
   framesKept n (switchCaseNodes ev env sw len idx nodes st)"
proof (induction nodes arbitrary: idx st)
  case Nil
  then show ?case by simp
next
  case (Cons caseNode rest)
  obtain stat caseExprs body where node: "caseNode = SwitchCaseRule stat caseExprs body"
    by (cases caseNode)
  have compare: "framesKept n
          (andThen (evalExpression ev env caseExpr st)
             (\<lambda>v st1.
                case toStringMethod (engine env) v of
                  None \<Rightarrow> throw TypeError st1
                | Some caseExprResult \<Rightarrow>
                    if sw = caseExprResult then
                      (case body of
                         Some caseBody \<Rightarrow> visitNormalTemplateBody ev env caseBody st1
                       | None \<Rightarrow> throw TypeError st1)
                    else switchCaseNodes ev env sw len (idx + 1) rest st1))" for caseExpr
    by (rule framesKept_andThen)
       (simp_all add: evalExpression_frames visitNormalTemplateBody_frames Cons
          split: option.splits)
  from Cons compare show ?case
    unfolding node
    by (simp add: visitNormalTemplateBody_frames split: option.splits list.splits)
qed

lemma visitSwitchCaseBody_frames:
  assumes "keepsFrames ev" and "n \<le> length (frames st)"
  shows "framesKept n (visitSwitchCaseBody ev env nodes st)"
proof (cases nodes)
  case Nil
  with assms(2) show ?thesis by (simp add: visitSwitchCaseBody_def)
next
  case (Cons switchNode rest)
  obtain stat switchExprs body where node: "switchNode = SwitchCaseRule stat switchExprs body"
    by (cases switchNode)
  have run: "framesKept n
          (andThen (evalExpression ev env switchExpr st)
             (\<lambda>v st1.
                case toStringMethod (engine env) v of
                  None \<Rightarrow> throw TypeError st1
                | Some switchExprResult \<Rightarrow>
                    switchCaseNodes ev env switchExprResult (int (length nodes)) 0 nodes st1))"
    for switchExpr
    by (rule framesKept_andThen)
       (simp_all add: evalExpression_frames switchCaseNodes_frames assms split: option.splits)
  from assms(2) run [unfolded Cons node] show ?thesis
    unfolding visitSwitchCaseBody_def Cons node
    by (simp split: list.splits)
qed

lemma structureValueNodes_frames:
  "keepsFrames ev \<Longrightarrow> n \<le> length (frames st) \<Longrightarrow>
   framesKept n (structureValueNodes ev env children acc st)"
proof (induction children arbitrary: acc st)
  case Nil
  then show ?case by simp
next
  case (Cons child rest)
  show ?case
  proof (cases child)
    case (EXPRESSION_IN_STRUCTURE_BODY exp)
    have "framesKept n
            (andThen (evalExpression ev env exp st)
               (\<lambda>v st1.
                  case stringOf (engine env) v of
                    None \<Rightarrow> throw TypeError st1
                  | Some text \<Rightarrow> structureValueNodes ev env rest (acc @ text) st1))"
      by (rule framesKept_andThen)
         (simp_all add: evalExpression_frames Cons split: option.splits)
    with EXPRESSION_IN_STRUCTURE_BODY show ?thesis by simp
  qed (simp_all add: Cons)
qed

lemma structureValueItems_frames:
  "keepsFrames ev \<Longrightarrow> n \<le> length (frames st) \<Longrightarrow>
   framesKept n (structureValueItems ev env items0 result st)"
proof (induction items0 arbitrary: result st)
  case Nil
  then show ?case by simp
next
  case (Cons item rest)
  show ?case
  proof (cases item)
    case (PureExpression exp)
    have "framesKept n
            (andThen (evalExpression ev env exp st)
               (\<lambda>v st1. structureValueItems ev env rest (result @ [v]) st1))"
      by (rule framesKept_andThen) (simp_all add: evalExpression_frames Cons)
    with PureExpression show ?thesis by simp
  next
    case (StructureNodes children)
    have "framesKept n
            (andThen (structureValueNodes ev env children [] st)
               (\<lambda>itemStringResult st1.
                  structureValueItems ev env rest (result @ [VStr (trim itemStringResult)]) st1))"
      by (rule framesKept_andThen) (simp_all add: structureValueNodes_frames Cons)
    with StructureNodes show ?thesis by simp
  qed
qed

lemma visitStructureValue_frames:
  assumes "keepsFrames ev" and "n \<le> length (frames st)"
  shows "framesKept n (visitStructureValue ev env values st)"
  unfolding visitStructureValue_def
  by (rule framesKept_andThen)
     (simp_all add: structureValueItems_frames assms split: list.splits)

lemma structuredBodyContentLines_frames:
  "keepsFrames ev \<Longrightarrow> n \<le> length (frames st) \<Longrightarrow>
   framesKept n (structuredBodyContentLines ev env T bodys result st)"
proof (induction bodys arbitrary: result st)
  case Nil
  then show ?case by simp
next
  case (Cons body bodys)
  show ?case
  proof (cases body)
    case (KeyValueStructureLine ident vs)
    have "framesKept n
            (andThen (visitStructureValue ev env vs st)
               (\<lambda>v st1.
                  structuredBodyContentLines ev env T bodys
                    (assign (arrayPrototypeKeys (engine env)) result (toLowerCase ident) v) st1))"
      by (rule framesKept_andThen) (simp_all add: visitStructureValue_frames Cons)
    with KeyValueStructureLine show ?thesis by (simp add: Let_def)
  next
    case (ObjectStructureLine exp)
    have "framesKept n
            (andThen (evalExpression ev env exp st)
               (\<lambda>propertyObject st1.
                  case mergeObject env T propertyObject result of
                    Inl e \<Rightarrow> throw e st1
                  | Inr merged \<Rightarrow> structuredBodyContentLines ev env T bodys merged st1))"
      by (rule framesKept_andThen)
         (simp_all add: evalExpression_frames Cons split: sum.splits)
    with ObjectStructureLine show ?thesis by simp
  qed
qed

lemma visit_frames:
  assumes "keepsFrames ev" and "n \<le> length (frames st)"
  shows "framesKept n (visit ev env tree st)"
proof (cases tree)
  case (StructuredTemplateBody typeName bodys)
  have "framesKept n
          (andThen (structuredBodyContentLines ev env typeName bodys
                      (None, [(LGType, VStr typeName)]) st)
             (\<lambda>result st1. return (toObject result) st1))"
    by (rule framesKept_andThen) (simp_all add: structuredBodyContentLines_frames assms)
  with StructuredTemplateBody show ?thesis
    by (simp add: visit_def visitStructuredTemplateBody_def)
qed (simp_all add: visit_def visitNormalTemplateBody_frames visitIfElseBody_frames
      visitSwitchCaseBody_frames assms)

lemma evaluateTemplate_frames: "keepsFrames (evaluateTemplate fuel env)"
proof (induction fuel)
  case 0
  show ?case by (simp add: keepsFrames_def evaluateTemplate.simps)
next
  case (Suc fuel)
  show ?case
    unfolding keepsFrames_def
  proof (intro allI impI)
    fix n tName sc and st :: evalState
    assume kept: "n \<le> length (frames st)"
    have first: "framesKept n
        (andThen (visit (evaluateTemplate fuel env) env tree (push target st))
           (\<lambda>result st1. return (lineBreak env result) (pop st1)))" for tree target
      by (rule framesKept_andThen) (simp_all add: visit_frames Suc kept le_SucI)
    have nested: "framesKept n
        (andThen (visit (evaluateTemplate fuel env) env tree (push target st))
           (\<lambda>result st1.
              return (lineBreak env result) (pop (setEvaluatedChild p key result st1))))"
      for tree target p key
      by (rule framesKept_andThen) (simp_all add: visit_frames Suc kept le_SucI)
    from kept first nested show "framesKept n (evaluateTemplate (Suc fuel) env tName sc st)"
      by (simp add: evaluateTemplate.simps Let_def split: sum.splits prod.splits option.splits)
  qed
qed


lemma parse_marker: "parseTemplateName (t @ ReExecuteSuffix) = Inr (True, t)"
  by (simp add: parseTemplateName_def ReExecuteSuffix_def endsWith_def)

lemma recorded_child:
  assumes "a < length (frames st1)"
  shows "map_of (evaluatedChildren (frames (pop (setEvaluatedChild a key v st1)) ! a)) key = Some v"
  using assms by (simp add: setEvaluatedChild_def update_conv')

text \<open>
  A template \<open>t\<close> of the collection, not on the stack, is called while \<open>previous\<close> is the
  frame at the end of the stack array. Without the marker, when the map of \<open>previous\<close>
  holds a value under the fingerprint of the call, that value is returned and the state
  is untouched: the body is not run. Otherwise the body is run in a new frame, and when
  it returns, its result is in the map of \<open>previous\<close> under that fingerprint and the
  call returns it (after the line-break step). A name with the marker \<open>!\<close> parses to
  the name without it and the flag that takes the second path, whatever the map holds.
  The frame at the end of the array is the frame of the calling template as long as no
  loop check has reversed the array.
\<close>

lemma memo_in_last_frame:
  assumes "parseTemplateName n = Inr (reExecute, t)"
    and "templateMap env t = Some tm"
    and "\<not> list_ex (\<lambda>u. templateName u = t) (stackTargets st)"
    and "evaluationTargetStack st \<noteq> []"
    and "previous = last (evaluationTargetStack st)"
    and "previous < length (frames st)"
    and "key = getId env t (wrapScope sc)"
  shows
   "(\<not> reExecute \<and> map_of (evaluatedChildren (frames st ! previous)) key = Some v \<longrightarrow>
       evaluateTemplate (Suc fuel) env n sc st = Some (Inr v, st)) \<and>
    (reExecute \<or> map_of (evaluatedChildren (frames st ! previous)) key = None \<longrightarrow>
       evaluateTemplate (Suc fuel) env n sc st =
         (case visit (evaluateTemplate fuel env) env (templateBodyParseTree tm)
                 (push \<lparr>templateName = t, scope = wrapScope sc, evaluatedChildren = []\<rparr> st) of
            None \<Rightarrow> None
          | Some (Inl e, st1) \<Rightarrow> Some (Inl e, st1)
          | Some (Inr result, st1) \<Rightarrow>
              Some (Inr (lineBreak env result), pop (setEvaluatedChild previous key result st1))) \<and>
       (\<forall>returned st'.
          evaluateTemplate (Suc fuel) env n sc st = Some (Inr returned, st') \<longrightarrow>
          (\<exists>result. returned = lineBreak env result \<and>
             map_of (evaluatedChildren (frames st' ! previous)) key = Some result))) \<and>
    parseTemplateName (t @ ReExecuteSuffix) = Inr (True, t)"
proof -
  from assms(2) have known: "inTemplateMap env t"
    by (simp add: templateMap_Some)
  from assms(4) obtain a as where stack: "evaluationTargetStack st = a # as"
    by (cases "evaluationTargetStack st") auto
  with assms(5) have prev: "previous = last (a # as)"
    by simp
  have unfolded: "evaluateTemplate (Suc fuel) env n sc st =
      (case (if \<not> reExecute
             then map_of (evaluatedChildren (frames st ! previous)) key else None) of
         Some w \<Rightarrow> return w st
       | None \<Rightarrow>
           andThen (visit (evaluateTemplate fuel env) env (templateBodyParseTree tm)
                      (push \<lparr>templateName = t, scope = wrapScope sc, evaluatedChildren = []\<rparr> st))
             (\<lambda>result st1.
                return (lineBreak env result) (pop (setEvaluatedChild previous key result st1))))"
    using assms(1,2,3) known stack
    unfolding assms(7) prev
    by (simp add: evaluateTemplate.simps Let_def del: last.simps cong: option.case_cong)
  have cached: "evaluateTemplate (Suc fuel) env n sc st = Some (Inr v, st)"
    if "\<not> reExecute \<and> map_of (evaluatedChildren (frames st ! previous)) key = Some v"
    using that by (simp add: unfolded return_def)
  have run: "evaluateTemplate (Suc fuel) env n sc st =
         (case visit (evaluateTemplate fuel env) env (templateBodyParseTree tm)
                 (push \<lparr>templateName = t, scope = wrapScope sc, evaluatedChildren = []\<rparr> st) of
            None \<Rightarrow> None
          | Some (Inl e, st1) \<Rightarrow> Some (Inl e, st1)
          | Some (Inr result, st1) \<Rightarrow>
              Some (Inr (lineBreak env result), pop (setEvaluatedChild previous key result st1)))"
    if "reExecute \<or> map_of (evaluatedChildren (frames st ! previous)) key = None"
    using that
    by (auto simp: unfolded return_def andThen_def split: option.splits sum.splits prod.splits)
  have recorded: "\<exists>result. returned = lineBreak env result \<and>
             map_of (evaluatedChildren (frames st' ! previous)) key = Some result"
    if fresh: "reExecute \<or> map_of (evaluatedChildren (frames st ! previous)) key = None"
      and returns: "evaluateTemplate (Suc fuel) env n sc st = Some (Inr returned, st')"
    for returned st'
  proof -
    from run [OF fresh] returns obtain result st1 where
      body: "visit (evaluateTemplate fuel env) env (templateBodyParseTree tm)
               (push \<lparr>templateName = t, scope = wrapScope sc, evaluatedChildren = []\<rparr> st)
             = Some (Inr result, st1)"
      and ret: "returned = lineBreak env result"
      and fin: "st' = pop (setEvaluatedChild previous key result st1)"
      by (auto split: option.splits sum.splits prod.splits)
    have "framesKept (length (frames st))
            (visit (evaluateTemplate fuel env) env (templateBodyParseTree tm)
               (push \<lparr>templateName = t, scope = wrapScope sc, evaluatedChildren = []\<rparr> st))"
      by (rule visit_frames) (simp_all add: evaluateTemplate_frames)
    with body assms(6) have "previous < length (frames st1)"
      by simp
    from recorded_child [OF this] ret fin show ?thesis
      by blast
  qed
  from cached run recorded parse_marker show ?thesis
    by blast
qed

lemma base_rerun:
  "evaluateTemplate (Suc 1) (exampleEvaluator cardTemplates exampleOptions) ''base!''
     (PlainScope VUndefined) memoState
   = Some (Inr baseObject, memoStateAfter)"
  by code_simp

lemma memo_in_last_frame_example:
  "evaluateTemplate (Suc 0) (exampleEvaluator cardTemplates exampleOptions) ''base''
     (PlainScope VUndefined) memoState
   = Some (Inr (VStr ''remembered''), memoState) \<and>
   evaluateTemplate (Suc 1) (exampleEvaluator cardTemplates exampleOptions) ''base!''
     (PlainScope VUndefined) memoState
   = Some (Inr baseObject, memoStateAfter) \<and>
   map_of (evaluatedChildren (frames memoStateAfter ! 0)) ''base'' = Some baseObject"
proof -
  have p1: "parseTemplateName ''base'' = Inr (False, ''base'')"
    by (simp add: parseTemplateName_def endsWith_def ReExecuteSuffix_def)
  have p2: "parseTemplateName ''base!'' = Inr (True, ''base'')"
    by (simp add: parseTemplateName_def endsWith_def ReExecuteSuffix_def)
  have m: "templateMap (exampleEvaluator cardTemplates exampleOptions) ''base''
             = Some (exampleTemplate ''base'' [] (StructuredTemplateBody ''Card'' baseLines))"
    by (simp add: templateMap_def exampleEvaluator_def cardTemplates_def exampleTemplate_def)
  have s: "\<not> list_ex (\<lambda>u. templateName u = ''base'') (stackTargets memoState)"
    by (simp add: stackTargets_def memoState_def)
  have e: "evaluationTargetStack memoState \<noteq> []"
    by (simp add: memoState_def)
  have l: "0 = last (evaluationTargetStack memoState)"
    by (simp add: memoState_def)
  have f: "0 < length (frames memoState)"
    by (simp add: memoState_def)
  have k: "''base'' = getId (exampleEvaluator cardTemplates exampleOptions) ''base''
             (wrapScope (PlainScope VUndefined))"
    by (simp add: exampleEvaluator_def)
  have c: "map_of (evaluatedChildren (frames memoState ! 0)) ''base'' = Some (VStr ''remembered'')"
    by (simp add: memoState_def)
  from memo_in_last_frame [OF p1 m s e l f k, of "VStr ''remembered''" 0] c
  have first: "evaluateTemplate (Suc 0) (exampleEvaluator cardTemplates exampleOptions) ''base''
     (PlainScope VUndefined) memoState = Some (Inr (VStr ''remembered''), memoState)"
    by simp
  from memo_in_last_frame [OF p2 m s e l f k, of "VStr ''remembered''" 1] base_rerun
  obtain result where "baseObject = lineBreak (exampleEvaluator cardTemplates exampleOptions) result"
    and "map_of (evaluatedChildren (frames memoStateAfter ! 0)) ''base'' = Some result"
    by blast
  moreover have "lineBreak (exampleEvaluator cardTemplates exampleOptions) result = result"
    by (simp add: lineBreak_def exampleEvaluator_def exampleOptions_def split: val.splits)
  ultimately have "map_of (evaluatedChildren (frames memoStateAfter ! 0)) ''base'' = Some baseObject"
    by simp
  with first base_rerun show ?thesis
    by blast
qed


text \<open>
  Claim C5 fails once a loop check has reversed the stack. In \<open>A\<close> the condition
  \<open>concat(C(), B())\<close> first calls \<open>C\<close>, whose result \<open>a\<close> is recorded in the frame of \<open>A\<close>;
  then \<open>B\<close> calls \<open>A\<close>, the loop check reverses the stack in place and throws, the frame
  of \<open>A\<close> is popped in place of the frame of \<open>B\<close>, and the condition is false. The branch
  \<open>ELSE\<close> of \<open>A\<close> calls \<open>C\<close> once more: the map of the frame of \<open>A\<close> holds \<open>C\<close>, but the frame
  at the end of the stack is the frame of \<open>B\<close>, so the body of \<open>C\<close> is run again, with
  another random draw, and its result \<open>b\<close> is recorded in the frame of \<open>B\<close> and returned.
\<close>

theorem memo_missed_after_loop:
  "evaluateTemplate 4 memoEvaluator ''A'' (PlainScope (VObj [])) initialState
   = Some (Inr (VStr ''b''), memoFinalState)"
  by code_simp

end
